theory Spec2Isabelle
  imports Main "HOL-Library.Sublist"
begin

section \<open>Strings: split, join, filter(Boolean)\<close>

text \<open>
  \<^verbatim>\<open>s.split("/")\<close> with a one-character separator: the pieces between the separators,
  empty pieces included; the empty string splits into one empty piece.
\<close>

fun split_on :: "char \<Rightarrow> string \<Rightarrow> string list" where
  "split_on c [] = [[]]"
| "split_on c (x # xs) =
     (if x = c then [] # split_on c xs
      else (x # hd (split_on c xs)) # tl (split_on c xs))"

text \<open>\<^verbatim>\<open>xs.join(sep)\<close> on an array of strings.\<close>

fun join :: "string \<Rightarrow> string list \<Rightarrow> string" where
  "join sep [] = []"
| "join sep [x] = x"
| "join sep (x # y # ys) = x @ sep @ join sep (y # ys)"

text \<open>\<^verbatim>\<open>xs.filter(Boolean)\<close> on an array of strings keeps the non-empty ones.\<close>

definition filter_Boolean :: "string list \<Rightarrow> string list" where
  "filter_Boolean xs = filter (\<lambda>s. s \<noteq> []) xs"

text \<open>The idiom \<^verbatim>\<open>p.split("/").filter(Boolean)\<close> of App.tsx and Toolbar.tsx.\<close>

definition segments :: "string \<Rightarrow> string list" where
  "segments p = filter_Boolean (split_on CHR ''/'' p)"

section \<open>JavaScript values and errors\<close>

text \<open>
  A parsed JSON value. A number is kept as the text that ECMAScript's ToString gives it;
  an object keeps its members in the order of the text.
\<close>

datatype json =
    JNull
  | JBool bool
  | JNum string
  | JStr string
  | JArr "json list"
  | JObj "(string \<times> json) list"

datatype js_error = Error string | TypeError string | SyntaxError string

fun message :: "js_error \<Rightarrow> string" where
  "message (Error m) = m"
| "message (TypeError m) = m"
| "message (SyntaxError m) = m"

text \<open>
  Reading the property \<open>k\<close> of a parsed JSON value; \<open>None\<close> is \<^verbatim>\<open>undefined\<close>.
  Reading a property of \<^verbatim>\<open>null\<close> throws a TypeError, whose text names the key in
  single quotes. Of an object's duplicate
  members the last one counts. The keys the client reads (detail, uploaded, path,
  parent, items, ...) are no properties of strings, numbers, booleans or arrays.
\<close>

definition js_get :: "json \<Rightarrow> string \<Rightarrow> js_error + json option" where
  "js_get v k =
     (case v of
        JNull \<Rightarrow> Inl (TypeError (''Cannot read properties of null (reading '' @
                         [CHR 0x27] @ k @ [CHR 0x27] @ '')''))
      | JObj kvs \<Rightarrow> Inr (map_of (rev kvs) k)
      | _ \<Rightarrow> Inr None)"

text \<open>The first error of a sequence of results, or all the values.\<close>

fun first_error :: "('e + 'a) list \<Rightarrow> 'e + 'a list" where
  "first_error [] = Inr []"
| "first_error (Inl e # rs) = Inl e"
| "first_error (Inr x # rs) =
     (case first_error rs of Inl e \<Rightarrow> Inl e | Inr xs \<Rightarrow> Inr (x # xs))"

text \<open>
  ToString, which \<^verbatim>\<open>new Error(v)\<close> applies to its argument. An array is joined with
  commas, \<^verbatim>\<open>null\<close> elements giving the empty string. An object gives
  \<^verbatim>\<open>[object Object]\<close> through Object.prototype.toString, unless it has a member
  named \<^verbatim>\<open>toString\<close> of its own: a parsed value is no function, so the conversion
  finds nothing to call and throws a TypeError.
\<close>

fun js_to_string :: "json \<Rightarrow> js_error + string" where
  "js_to_string JNull = Inr ''null''"
| "js_to_string (JBool b) = Inr (if b then ''true'' else ''false'')"
| "js_to_string (JNum n) = Inr n"
| "js_to_string (JStr s) = Inr s"
| "js_to_string (JArr xs) =
     (case first_error (map (\<lambda>x. case x of JNull \<Rightarrow> Inr [] | _ \<Rightarrow> js_to_string x) xs) of
        Inl e \<Rightarrow> Inl e
      | Inr ss \<Rightarrow> Inr (join '','' ss))"
| "js_to_string (JObj kvs) =
     (if ''toString'' \<in> set (map fst kvs)
      then Inl (TypeError ''Cannot convert object to primitive value'')
      else Inr ''[object Object]'')"

section \<open>HTTP requests and responses\<close>

record File =
  file_name :: string
  file_bytes :: string

datatype form_value = FileValue File | StringValue string

type_synonym form_data = "(string \<times> form_value) list"

text \<open>\<^verbatim>\<open>formData.append(name, value)\<close> adds one entry at the end.\<close>

definition append :: "form_data \<Rightarrow> string \<Rightarrow> form_value \<Rightarrow> form_data" where
  "append fd k v = fd @ [(k, v)]"

type_synonym url_search_params = "(string \<times> string) list"

text \<open>\<^verbatim>\<open>search.set(k, v)\<close>: the first entry named \<open>k\<close> gets the value and the other
  entries named \<open>k\<close> go; without such an entry the pair is added at the end.\<close>

fun usp_set :: "url_search_params \<Rightarrow> string \<Rightarrow> string \<Rightarrow> url_search_params" where
  "usp_set [] k v = [(k, v)]"
| "usp_set ((k', v') # ps) k v =
     (if k' = k then (k, v) # filter (\<lambda>p. fst p \<noteq> k) ps
      else (k', v') # usp_set ps k v)"

text \<open>
  The body of a request: the text \<^verbatim>\<open>JSON.stringify(v)\<close>, kept as the value \<open>v\<close> it
  serialises, or a FormData, sent as multipart form.
\<close>

datatype body_init = JSON_stringify json | FormDataBody form_data

record request_init =
  init_method :: "string option"
  init_headers :: "(string \<times> string) list option"
  init_body :: "body_init option"

text \<open>
  What \<^verbatim>\<open>fetch(url, init)\<close> sends. The URL is the text of the template literal up to
  the interpolated \<^verbatim>\<open>search.toString()\<close>, and \<open>search\<close> the URLSearchParams serialised
  there (empty where the template has none). The method defaults to GET.
\<close>

record http_request =
  url :: string
  search :: url_search_params
  req_method :: string
  req_headers :: "(string \<times> string) list"
  req_body :: "body_init option"

text \<open>
  \<open>body\<close> is what \<^verbatim>\<open>response.json()\<close> finds: the parsed value, or, for a body that
  is not JSON text, the message of the SyntaxError that the parser raises for it.
\<close>

record response =
  status_code :: nat
  statusText :: string
  body :: "string + json"

text \<open>\<^verbatim>\<open>response.ok\<close>: the status is in the range 200-299.\<close>

definition ok :: "response \<Rightarrow> bool" where
  "ok r = (200 \<le> status_code r \<and> status_code r \<le> 299)"

definition response_json :: "response \<Rightarrow> js_error + json" where
  "response_json r =
     (case body r of
        Inl m \<Rightarrow> Inl (SyntaxError m)
      | Inr v \<Rightarrow> Inr v)"

text \<open>
  The environment of the client: the build-time variable VITE_API_BASE and the network,
  which answers a request (given the requests sent before it) with a response or makes
  \<^verbatim>\<open>fetch\<close> reject.
\<close>

record env =
  VITE_API_BASE :: "string option"
  network :: "http_request list \<Rightarrow> http_request \<Rightarrow> js_error + response"

definition fetch_request :: "string \<Rightarrow> url_search_params \<Rightarrow> request_init option \<Rightarrow> http_request" where
  "fetch_request u q init =
     \<lparr>url = u, search = q,
      req_method = (case init of None \<Rightarrow> ''GET''
                    | Some i \<Rightarrow> (case init_method i of None \<Rightarrow> ''GET'' | Some m \<Rightarrow> m)),
      req_headers = (case init of None \<Rightarrow> []
                     | Some i \<Rightarrow> (case init_headers i of None \<Rightarrow> [] | Some h \<Rightarrow> h)),
      req_body = (case init of None \<Rightarrow> None | Some i \<Rightarrow> init_body i)\<rparr>"

text \<open>Every function that talks to the network takes the log of the requests sent so
  far and returns it extended.\<close>

definition fetch ::
  "env \<Rightarrow> string \<Rightarrow> url_search_params \<Rightarrow> request_init option \<Rightarrow> http_request list
     \<Rightarrow> (js_error + response) \<times> http_request list" where
  "fetch e u q init log =
     (let rq = fetch_request u q init in (network e log rq, log @ [rq]))"

section \<open>api/client.ts\<close>

text \<open>\<^verbatim>\<open>import.meta.env.VITE_API_BASE?.replace(/\/$/, "") ?? ""\<close>\<close>

definition API_BASE :: "env \<Rightarrow> string" where
  "API_BASE e =
     (case VITE_API_BASE e of
        None \<Rightarrow> []
      | Some s \<Rightarrow> (if s \<noteq> [] \<and> last s = CHR ''/'' then butlast s else s))"

text \<open>
  The error thrown for a response that is not ok (lines 8-11 of \<^verbatim>\<open>request\<close>, 39-40 of
  \<^verbatim>\<open>uploadFiles\<close>): the parsed body, or \<^verbatim>\<open>{detail: response.statusText}\<close> when the
  body does not parse; then \<^verbatim>\<open>new Error(message.detail ?? fallback)\<close>, where the
  fallback replaces \<^verbatim>\<open>undefined\<close> and \<^verbatim>\<open>null\<close> only. Reading \<^verbatim>\<open>detail\<close> and
  building the Error can throw themselves; then that error is the one thrown.
\<close>

definition error_of_response :: "response \<Rightarrow> string \<Rightarrow> js_error" where
  "error_of_response r fallback =
     (let message = (case response_json r of
                       Inl _ \<Rightarrow> JObj [(''detail'', JStr (statusText r))]
                     | Inr v \<Rightarrow> v)
      in case js_get message ''detail'' of
           Inl e \<Rightarrow> e
         | Inr d \<Rightarrow> (case d of
                       None \<Rightarrow> Error fallback
                     | Some JNull \<Rightarrow> Error fallback
                     | Some v \<Rightarrow> (case js_to_string v of
                                   Inl e \<Rightarrow> e
                                 | Inr text \<Rightarrow> Error text)))"

definition request ::
  "env \<Rightarrow> string \<Rightarrow> url_search_params \<Rightarrow> request_init option \<Rightarrow> http_request list
     \<Rightarrow> (js_error + json) \<times> http_request list" where
  "request e input q init log =
     (case fetch e (API_BASE e @ input) q init log of
        (Inl err, log') \<Rightarrow> (Inl err, log')
      | (Inr r, log') \<Rightarrow>
          if \<not> ok r then (Inl (error_of_response r ''Request failed''), log')
          else (response_json r, log'))"

definition getDirectory ::
  "env \<Rightarrow> string \<Rightarrow> http_request list \<Rightarrow> (js_error + json) \<times> http_request list" where
  "getDirectory e path log =
     (let search0 = [];
          search1 = (if path \<noteq> [] then usp_set search0 ''path'' path else search0)
      in request e ''/api/files?'' search1 None log)"

text \<open>The two shapes \<^verbatim>\<open>FileList | File[]\<close> of the files argument.\<close>

datatype files_arg = FileList "File list" | FileArray "File list"

definition Array_from :: "files_arg \<Rightarrow> File list" where
  "Array_from fs = (case fs of FileList xs \<Rightarrow> xs | FileArray xs \<Rightarrow> xs)"

text \<open>\<^verbatim>\<open>xs.forEach((file) => formData.append("files", file))\<close>\<close>

definition forEach_append :: "File list \<Rightarrow> form_data \<Rightarrow> form_data" where
  "forEach_append xs fd = foldl (\<lambda>acc f. append acc ''files'' (FileValue f)) fd xs"

definition upload_form :: "string \<Rightarrow> files_arg \<Rightarrow> form_data" where
  "upload_form path files =
     (let formData0 = [];
          formData1 = (case files of
                         FileList _ \<Rightarrow> forEach_append (Array_from files) formData0
                       | FileArray xs \<Rightarrow> forEach_append xs formData0)
      in append formData1 ''destination'' (StringValue path))"

text \<open>\<^verbatim>\<open>uploadFiles\<close> returns \<^verbatim>\<open>data.uploaded\<close>, whatever the body holds there
  (\<open>None\<close> is \<^verbatim>\<open>undefined\<close>).\<close>

definition uploadFiles ::
  "env \<Rightarrow> string \<Rightarrow> files_arg \<Rightarrow> http_request list
     \<Rightarrow> (js_error + json option) \<times> http_request list" where
  "uploadFiles e path files log =
     (let formData = upload_form path files
      in case fetch e (API_BASE e @ ''/api/files/upload'') []
                (Some \<lparr>init_method = Some ''POST'', init_headers = None,
                       init_body = Some (FormDataBody formData)\<rparr>) log of
           (Inl err, log') \<Rightarrow> (Inl err, log')
         | (Inr r, log') \<Rightarrow>
             if \<not> ok r then (Inl (error_of_response r ''Upload failed''), log')
             else (case response_json r of
                     Inl err \<Rightarrow> (Inl err, log')
                   | Inr data \<Rightarrow> (js_get data ''uploaded'', log')))"

text \<open>The three functions below await \<^verbatim>\<open>request\<close> and drop its value.\<close>

definition await_void ::
  "(js_error + json) \<times> http_request list \<Rightarrow> (js_error + unit) \<times> http_request list" where
  "await_void p = (case p of (Inl err, log') \<Rightarrow> (Inl err, log') | (Inr _, log') \<Rightarrow> (Inr (), log'))"

definition createFolder ::
  "env \<Rightarrow> string \<Rightarrow> string \<Rightarrow> http_request list \<Rightarrow> (js_error + unit) \<times> http_request list" where
  "createFolder e parent_dir name log =
     await_void (request e ''/api/files/folder'' []
       (Some \<lparr>init_method = Some ''POST'',
              init_headers = Some [(''Content-Type'', ''application/json'')],
              init_body = Some (JSON_stringify
                (JObj [(''parent'', JStr parent_dir), (''name'', JStr name)]))\<rparr>) log)"

definition renamePath ::
  "env \<Rightarrow> string \<Rightarrow> string \<Rightarrow> http_request list \<Rightarrow> (js_error + unit) \<times> http_request list" where
  "renamePath e current_path new_path log =
     await_void (request e ''/api/files/rename'' []
       (Some \<lparr>init_method = Some ''PATCH'',
              init_headers = Some [(''Content-Type'', ''application/json'')],
              init_body = Some (JSON_stringify
                (JObj [(''current_path'', JStr current_path), (''new_path'', JStr new_path)]))\<rparr>) log)"

definition deletePath ::
  "env \<Rightarrow> string \<Rightarrow> http_request list \<Rightarrow> (js_error + unit) \<times> http_request list" where
  "deletePath e path log =
     (let search0 = [(''path'', path)]
      in await_void (request e ''/api/files?'' search0
           (Some \<lparr>init_method = Some ''DELETE'', init_headers = None, init_body = None\<rparr>) log))"

section \<open>api/types.ts\<close>

record FileItem =
  item_name :: string
  item_path :: string
  is_dir :: bool
  item_size :: string
  modified :: string
  mime_type :: "string option"

record DirectoryListing =
  path :: string
  parent :: "string option"
  items :: "FileItem list"

text \<open>
  The cast \<^verbatim>\<open>response.json() as Promise<T>\<close> checks nothing. The functions below read a
  parsed body at the declared type; a member that is missing or of another type reads
  as the empty string, \<^verbatim>\<open>false\<close>, \<^verbatim>\<open>null\<close> or the empty array.
\<close>

definition string_member :: "json \<Rightarrow> string \<Rightarrow> string option" where
  "string_member v k = (case js_get v k of Inr (Some (JStr s)) \<Rightarrow> Some s | _ \<Rightarrow> None)"

definition as_FileItem :: "json \<Rightarrow> FileItem" where
  "as_FileItem v =
     \<lparr>item_name = (case string_member v ''name'' of Some s \<Rightarrow> s | None \<Rightarrow> []),
      item_path = (case string_member v ''path'' of Some s \<Rightarrow> s | None \<Rightarrow> []),
      is_dir = (js_get v ''is_dir'' = Inr (Some (JBool True))),
      item_size = (case js_get v ''size'' of Inr (Some (JNum n)) \<Rightarrow> n | _ \<Rightarrow> ''0''),
      modified = (case string_member v ''modified'' of Some s \<Rightarrow> s | None \<Rightarrow> []),
      mime_type = string_member v ''mime_type''\<rparr>"

definition as_DirectoryListing :: "json \<Rightarrow> DirectoryListing" where
  "as_DirectoryListing v =
     \<lparr>path = (case string_member v ''path'' of Some s \<Rightarrow> s | None \<Rightarrow> []),
      parent = string_member v ''parent'',
      items = (case js_get v ''items'' of
                 Inr (Some (JArr xs)) \<Rightarrow> map as_FileItem xs
               | _ \<Rightarrow> [])\<rparr>"

section \<open>App.tsx\<close>

text \<open>The state of the component, one field per \<^verbatim>\<open>useState\<close>.\<close>

record app_state =
  currentPath :: string
  listing :: "DirectoryListing option"
  loading :: bool
  error :: "string option"
  status :: "string option"

definition initial_state :: app_state where
  "initial_state =
     \<lparr>currentPath = [], listing = None, loading = False, error = None, status = None\<rparr>"

text \<open>
  \<^verbatim>\<open>refresh(path = currentPath)\<close>. Every value thrown in this model is an Error, so
  \<^verbatim>\<open>err instanceof Error ? err.message : ...\<close> is the message. The listing is stored
  before \<^verbatim>\<open>data.path\<close> is read, which throws when the body is \<^verbatim>\<open>null\<close>.
\<close>

definition refresh ::
  "env \<Rightarrow> app_state \<Rightarrow> string \<Rightarrow> http_request list \<Rightarrow> app_state \<times> http_request list" where
  "refresh e st p log =
     (let st1 = st\<lparr>loading := True, error := None\<rparr>
      in case getDirectory e p log of
           (Inl err, log') \<Rightarrow> (st1\<lparr>error := Some (message err), loading := False\<rparr>, log')
         | (Inr data, log') \<Rightarrow>
             (case js_get data ''path'' of
                Inl err \<Rightarrow>
                  (st1\<lparr>listing := None, error := Some (message err), loading := False\<rparr>, log')
              | Inr _ \<Rightarrow>
                  (st1\<lparr>listing := Some (as_DirectoryListing data),
                       currentPath := path (as_DirectoryListing data),
                       loading := False\<rparr>, log')))"

definition navigateTo ::
  "env \<Rightarrow> app_state \<Rightarrow> string \<Rightarrow> http_request list \<Rightarrow> app_state \<times> http_request list" where
  "navigateTo e st p log = refresh e st p log"

text \<open>\<^verbatim>\<open>window.prompt\<close> gives \<open>None\<close> (\<^verbatim>\<open>null\<close>) when the user cancels.\<close>

definition handleCreateFolder ::
  "env \<Rightarrow> app_state \<Rightarrow> string option \<Rightarrow> http_request list \<Rightarrow> app_state \<times> http_request list" where
  \<open>handleCreateFolder e st prompt log =
     (case prompt of
        None \<Rightarrow> (st, log)
      | Some name \<Rightarrow>
          if name = [] then (st, log)
          else (case createFolder e (currentPath st) name log of
                  (Inl err, log') \<Rightarrow> (st\<lparr>error := Some (message err)\<rparr>, log')
                | (Inr _, log') \<Rightarrow>
                    refresh e (st\<lparr>status := Some (''Created folder "'' @ name @ ''"'')\<rparr>)
                      (currentPath st) log'))\<close>

text \<open>\<^verbatim>\<open>window.confirm\<close> gives a boolean.\<close>

definition handleDelete ::
  "env \<Rightarrow> app_state \<Rightarrow> FileItem \<Rightarrow> bool \<Rightarrow> http_request list \<Rightarrow> app_state \<times> http_request list" where
  \<open>handleDelete e st item confirmed log =
     (if \<not> confirmed then (st, log)
      else (case deletePath e (item_path item) log of
              (Inl err, log') \<Rightarrow> (st\<lparr>error := Some (message err)\<rparr>, log')
            | (Inr _, log') \<Rightarrow>
                refresh e (st\<lparr>status := Some (''Deleted "'' @ item_name item @ ''"'')\<rparr>)
                  (currentPath st) log'))\<close>

definition handleRename ::
  "env \<Rightarrow> app_state \<Rightarrow> FileItem \<Rightarrow> string option \<Rightarrow> http_request list
     \<Rightarrow> app_state \<times> http_request list" where
  \<open>handleRename e st item prompt log =
     (let parentSegments0 = segments (item_path item);
          parentSegments = butlast parentSegments0;
          parent_dir = join ''/'' parentSegments
      in case prompt of
           None \<Rightarrow> (st, log)
         | Some newName \<Rightarrow>
             if newName = [] \<or> newName = item_name item then (st, log)
             else (let targetPath = join ''/'' (filter_Boolean [parent_dir, newName])
                   in case renamePath e (item_path item) targetPath log of
                        (Inl err, log') \<Rightarrow> (st\<lparr>error := Some (message err)\<rparr>, log')
                      | (Inr _, log') \<Rightarrow>
                          refresh e (st\<lparr>status := Some (''Renamed to "'' @ newName @ ''"'')\<rparr>)
                            (currentPath st) log'))\<close>

text \<open>\<^verbatim>\<open>listing?.parent ?? ""\<close>\<close>

definition goUp ::
  "env \<Rightarrow> app_state \<Rightarrow> http_request list \<Rightarrow> app_state \<times> http_request list" where
  "goUp e st log =
     (let parent_dir = (case listing st of
                          None \<Rightarrow> []
                        | Some l \<Rightarrow> (case parent l of None \<Rightarrow> [] | Some p \<Rightarrow> p))
      in refresh e st parent_dir log)"

definition crumbs :: "string \<Rightarrow> string list" where
  "crumbs current = (if current \<noteq> [] then segments current else [])"

text \<open>\<^verbatim>\<open>refresh\<close> sets the listing and the current path together: once a listing
  is loaded, the current path is the path of the listing.\<close>

definition in_sync :: "app_state \<Rightarrow> bool" where
  "in_sync st = (case listing st of None \<Rightarrow> True | Some l \<Rightarrow> currentPath st = path l)"

section \<open>components/Toolbar.tsx and what App renders\<close>

text \<open>
  A rendered button: its text, whether it is disabled, and the handler its click runs.
  The handlers App passes down are named by an action.
\<close>

datatype action = Refresh | CreateFolder | GoUp | NavigateTo string

record button =
  label :: string
  disabled :: bool
  onClick :: action

record ToolbarProps =
  props_currentPath :: string
  onGoUp :: action
  onCreateFolder :: action
  onRefresh :: action
  isRoot :: bool

record toolbar_view =
  toolbar_buttons :: "button list"
  status_bar :: string

definition Toolbar :: "ToolbarProps \<Rightarrow> toolbar_view" where
  "Toolbar props =
     (let cs = crumbs (props_currentPath props)
      in \<lparr>toolbar_buttons =
            [\<lparr>label = ''Refresh'', disabled = False, onClick = onRefresh props\<rparr>,
             \<lparr>label = ''New Folder'', disabled = False, onClick = onCreateFolder props\<rparr>,
             \<lparr>label = ''Up One Level'', disabled = isRoot props, onClick = onGoUp props\<rparr>],
          status_bar = ''Path: /'' @ join ''/'' cs\<rparr>)"

record app_view =
  toolbar :: toolbar_view
  breadcrumbs :: "button list"

text \<open>
  The Toolbar element and the breadcrumbs of App's render: the Root button, then one
  button per crumb, \<^verbatim>\<open>crumbs.slice(0, index + 1).join("/")\<close> being its target.
\<close>

definition render :: "app_state \<Rightarrow> app_view" where
  "render st =
     (let cs = crumbs (currentPath st)
      in \<lparr>toolbar = Toolbar \<lparr>props_currentPath = currentPath st, onGoUp = GoUp,
                               onCreateFolder = CreateFolder, onRefresh = Refresh,
                               isRoot = (currentPath st = [])\<rparr>,
          breadcrumbs =
            \<lparr>label = ''Root'', disabled = False, onClick = NavigateTo []\<rparr> #
            map (\<lambda>(crumb, index).
                   \<lparr>label = crumb, disabled = False,
                    onClick = NavigateTo (join ''/'' (take (index + 1) cs))\<rparr>)
                (zip cs [0..<length cs])\<rparr>)"

text \<open>A click runs the button's handler; a disabled button does not react. The prompt
  is the answer the user would give to \<^verbatim>\<open>window.prompt\<close>.\<close>

definition click ::
  "env \<Rightarrow> app_state \<Rightarrow> string option \<Rightarrow> button \<Rightarrow> http_request list
     \<Rightarrow> app_state \<times> http_request list" where
  "click e st prompt b log =
     (if disabled b then (st, log)
      else (case onClick b of
              Refresh \<Rightarrow> refresh e st (currentPath st) log
            | CreateFolder \<Rightarrow> handleCreateFolder e st prompt log
            | GoUp \<Rightarrow> goUp e st log
            | NavigateTo p \<Rightarrow> navigateTo e st p log))"

section \<open>The data model of the specification\<close>

text \<open>
  The invariant of a VirtualPath, in the words of the specification: a sequence of
  non-empty segments, none of them \<^verbatim>\<open>.\<close> or \<^verbatim>\<open>..\<close>; a segment is a single name, so
  it holds no separator.
\<close>

definition is_segment :: "string \<Rightarrow> bool" where
  "is_segment s = (s \<noteq> [] \<and> s \<noteq> ''.'' \<and> s \<noteq> ''..'' \<and> CHR ''/'' \<notin> set s)"

definition is_VirtualPath :: "string list \<Rightarrow> bool" where
  "is_VirtualPath vp = list_all is_segment vp"

text \<open>A path as it is submitted, a string: the pieces between its separators are to
  be segments.\<close>

definition path_invariant :: "string \<Rightarrow> bool" where
  "path_invariant p = is_VirtualPath (split_on CHR ''/'' p)"

text \<open>
  Modelled from the spec: the server's DirectoryIndexer is not among the sources. Of
  the listing of the directory at a virtual path it gives the path, '/'-joined, the
  parent, "the resolved parent virtual path, or null at root", and the entries.
\<close>

definition list_directory :: "string list \<Rightarrow> FileItem list \<Rightarrow> DirectoryListing" where
  "list_directory vp entries =
     \<lparr>path = join ''/'' vp,
      parent = (if vp = [] then None else Some (join ''/'' (butlast vp))),
      items = entries\<rparr>"

section \<open>Examples\<close>

text \<open>An environment without VITE_API_BASE whose server gives one response to every
  request, some responses and some files.\<close>

definition server_always :: "response \<Rightarrow> env" where
  "server_always r = \<lparr>VITE_API_BASE = None, network = (\<lambda>log rq. Inr r)\<rparr>"

definition ok_listing :: response where
  "ok_listing =
     \<lparr>status_code = 200, statusText = ''OK'',
      body = Inr (JObj [(''path'', JStr ''docs''), (''parent'', JStr []),
                         (''items'', JArr [])])\<rparr>"

definition ok_uploaded :: response where
  "ok_uploaded =
     \<lparr>status_code = 200, statusText = ''OK'',
      body = Inr (JObj [(''uploaded'', JArr [JStr ''a.txt'', JStr ''b.txt''])])\<rparr>"

definition file_a :: File where
  "file_a = \<lparr>file_name = ''a.txt'', file_bytes = ''alpha''\<rparr>"

definition file_b :: File where
  "file_b = \<lparr>file_name = ''b.txt'', file_bytes = ''beta''\<rparr>"

definition partial_207 :: response where
  "partial_207 =
     \<lparr>status_code = 207, statusText = ''Multi-Status'',
      body = Inr (JObj [(''detail'', JStr ''Some entries could not be deleted''),
                         (''failed'', JArr [JObj [(''path'', JStr ''docs/a.txt''),
                                                  (''reason'', JStr ''Permission denied'')]])])\<rparr>"

definition not_found_404 :: response where
  "not_found_404 =
     \<lparr>status_code = 404, statusText = ''Not Found'',
      body = Inr (JObj [(''detail'', JStr ''Path not found'')])\<rparr>"

definition bad_gateway_502 :: response where
  "bad_gateway_502 =
     \<lparr>status_code = 502, statusText = ''Bad Gateway'',
      body = Inl ''Unexpected token < in JSON at position 0''\<rparr>"

definition item_a :: FileItem where
  "item_a =
     \<lparr>item_name = ''a.txt'', item_path = ''docs/a.txt'', is_dir = False,
      item_size = ''12'', modified = ''2024-01-01T00:00:00'', mime_type = Some ''text/plain''\<rparr>"

definition in_docs_a :: app_state where
  "in_docs_a =
     \<lparr>currentPath = ''docs/a'',
      listing = Some \<lparr>path = ''docs/a'', parent = Some ''docs'', items = []\<rparr>,
      loading = False, error = None, status = None\<rparr>"

definition ok_root_listing :: response where
  "ok_root_listing =
     \<lparr>status_code = 200, statusText = ''OK'',
      body = Inr (JObj [(''path'', JStr []), (''parent'', JNull), (''items'', JArr [])])\<rparr>"

definition server_error_500 :: response where
  "server_error_500 =
     \<lparr>status_code = 500, statusText = ''Internal Server Error'',
      body = Inr (JObj [(''error'', JStr ''disk failure'')])\<rparr>"

definition validation_422 :: response where
  "validation_422 =
     \<lparr>status_code = 422, statusText = ''Unprocessable Entity'',
      body = Inr (JObj [(''detail'',
               JArr [JObj [(''loc'', JArr [JStr ''body'', JStr ''name'']),
                           (''msg'', JStr ''field required''),
                           (''type'', JStr ''value_error.missing'')]])])\<rparr>"

section \<open>Facts about split and join\<close>

lemma split_on_not_Nil [simp]: "split_on c s \<noteq> []"
  by (induction s) auto

lemma split_on_no_sep: "x \<in> set (split_on c s) \<Longrightarrow> c \<notin> set x"
proof (induction s arbitrary: x)
  case Nil then show ?case by simp
next
  case (Cons a s)
  show ?case
  proof (cases "a = c")
    case True with Cons show ?thesis by auto
  next
    case False
    obtain w ws where sp: "split_on c s = w # ws" by (cases "split_on c s") auto
    with Cons False show ?thesis by auto
  qed
qed

lemma join_Cons: "xs \<noteq> [] \<Longrightarrow> join sep (x # xs) = x @ sep @ join sep xs"
  by (cases xs) auto

lemma join_split_on: "join [c] (split_on c s) = s"
proof (induction s)
  case Nil show ?case by simp
next
  case (Cons a s)
  obtain w ws where sp: "split_on c s = w # ws" by (cases "split_on c s") auto
  show ?case using Cons sp by (cases ws) (auto simp: join_Cons)
qed

lemma split_on_append_sep:
  "c \<notin> set x \<Longrightarrow> split_on c (x @ c # s) = x # split_on c s"
  by (induction x) auto

lemma split_on_no_sep_id: "c \<notin> set x \<Longrightarrow> split_on c x = [x]"
  by (induction x) auto

lemma split_on_join:
  "xs \<noteq> [] \<Longrightarrow> \<forall>x\<in>set xs. c \<notin> set x \<Longrightarrow> split_on c (join [c] xs) = xs"
proof (induction xs)
  case Nil then show ?case by simp
next
  case (Cons x xs)
  show ?case
  proof (cases xs)
    case Nil with Cons.prems show ?thesis by (simp add: split_on_no_sep_id)
  next
    case (Cons y ys)
    with Cons.IH Cons.prems have "split_on c (join [c] xs) = xs" by simp
    with Cons Cons.prems show ?thesis by (simp add: split_on_append_sep)
  qed
qed

lemma segments_join:
  "\<forall>x\<in>set xs. x \<noteq> [] \<and> CHR ''/'' \<notin> set x \<Longrightarrow> segments (join ''/'' xs) = xs"
proof (cases xs)
  case Nil then show ?thesis by (simp add: segments_def filter_Boolean_def)
next
  case (Cons a as)
  assume h: "\<forall>x\<in>set xs. x \<noteq> [] \<and> CHR ''/'' \<notin> set x"
  then have "split_on CHR ''/'' (join ''/'' xs) = xs"
    using Cons split_on_join[of xs "CHR ''/''"] by auto
  then show ?thesis using h by (simp add: segments_def filter_Boolean_def filter_id_conv)
qed

lemma segments_ok: "x \<in> set (segments p) \<Longrightarrow> x \<noteq> [] \<and> CHR ''/'' \<notin> set x"
  by (auto simp: segments_def filter_Boolean_def dest: split_on_no_sep)

lemma join_snoc: "xs \<noteq> [] \<Longrightarrow> join sep (xs @ [y]) = join sep xs @ sep @ y"
proof (induction xs)
  case Nil then show ?case by simp
next
  case (Cons x xs)
  then show ?case by (cases xs) auto
qed

lemma join_eq_Nil: "\<forall>x\<in>set xs. x \<noteq> [] \<Longrightarrow> (join sep xs = [] \<longleftrightarrow> xs = [])"
proof (cases xs)
  case Nil then show ?thesis by simp
next
  case (Cons x ys)
  assume "\<forall>x\<in>set xs. x \<noteq> []"
  with Cons show ?thesis by (cases ys) auto
qed

section \<open>The requests the client sends\<close>

lemma request_sends:
  "snd (request e input q init log) = log @ [fetch_request (API_BASE e @ input) q init]"
  by (simp add: request_def fetch_def Let_def split: sum.splits prod.splits)

lemma await_void_snd: "snd (await_void p) = snd p"
  by (simp add: await_void_def split: prod.splits sum.splits)

lemma getDirectory_sends:
  "snd (getDirectory e p log) =
     log @ [\<lparr>url = API_BASE e @ ''/api/files?'',
             search = (if p = [] then [] else [(''path'', p)]),
             req_method = ''GET'', req_headers = [], req_body = None\<rparr>]"
  by (simp add: getDirectory_def request_sends fetch_request_def Let_def)

lemma forEach_append_map:
  "forEach_append xs fd = fd @ map (\<lambda>f. (''files'', FileValue f)) xs"
  unfolding forEach_append_def
  by (induction xs arbitrary: fd) (simp_all add: append_def)

lemma upload_form_eq:
  "upload_form p files =
     map (\<lambda>f. (''files'', FileValue f)) (Array_from files) @ [(''destination'', StringValue p)]"
  by (cases files) (simp_all add: upload_form_def forEach_append_map append_def Array_from_def)

lemma uploadFiles_sends:
  "snd (uploadFiles e p files log) =
     log @ [\<lparr>url = API_BASE e @ ''/api/files/upload'', search = [],
             req_method = ''POST'', req_headers = [],
             req_body = Some (FormDataBody (upload_form p files))\<rparr>]"
  by (simp add: uploadFiles_def fetch_def fetch_request_def Let_def
           split: sum.splits prod.splits)

text \<open>
  C5. getDirectory sends exactly one request: GET /api/files (after API_BASE), with the
  path as the query parameter \<open>path\<close>; for the empty path the query has no parameter
  at all.
\<close>

theorem getDirectory_request:
  "snd (getDirectory e p log) =
     log @ [\<lparr>url = API_BASE e @ ''/api/files?'',
             search = (if p = [] then [] else [(''path'', p)]),
             req_method = ''GET'', req_headers = [], req_body = None\<rparr>]"
  by (rule getDirectory_sends)

theorem getDirectory_request_witness:
  "snd (getDirectory (server_always ok_listing) ''docs/a'' []) =
     [\<lparr>url = ''/api/files?'', search = [(''path'', ''docs/a'')],
       req_method = ''GET'', req_headers = [], req_body = None\<rparr>]
   \<and> snd (getDirectory (server_always ok_listing) [] []) =
     [\<lparr>url = ''/api/files?'', search = [],
       req_method = ''GET'', req_headers = [], req_body = None\<rparr>]"
  using getDirectory_request [of "server_always ok_listing" "''docs/a''" "[]"]
        getDirectory_request [of "server_always ok_listing" "[]" "[]"]
  by (simp add: API_BASE_def server_always_def)

text \<open>
  C6. renamePath sends exactly one request: PATCH /api/files/rename, whose body is the
  JSON text of an object with the two members current_path and new_path, the source
  and the destination path.
\<close>

theorem renamePath_request:
  "snd (renamePath e current_path new_path log) =
     log @ [\<lparr>url = API_BASE e @ ''/api/files/rename'', search = [],
             req_method = ''PATCH'',
             req_headers = [(''Content-Type'', ''application/json'')],
             req_body = Some (JSON_stringify
               (JObj [(''current_path'', JStr current_path), (''new_path'', JStr new_path)]))\<rparr>]"
  by (simp add: renamePath_def await_void_snd request_sends fetch_request_def)

theorem renamePath_request_witness:
  "snd (renamePath (server_always ok_listing) ''docs/a.txt'' ''docs/b.txt'' []) =
     [\<lparr>url = ''/api/files/rename'', search = [],
       req_method = ''PATCH'',
       req_headers = [(''Content-Type'', ''application/json'')],
       req_body = Some (JSON_stringify
         (JObj [(''current_path'', JStr ''docs/a.txt''), (''new_path'', JStr ''docs/b.txt'')]))\<rparr>]"
  using renamePath_request [of "server_always ok_listing" "''docs/a.txt''" "''docs/b.txt''" "[]"]
  by (simp add: API_BASE_def server_always_def)

text \<open>
  C4. uploadFiles sends exactly one request: POST /api/files/upload with a form that
  holds one part named \<open>files\<close> per file and then one field \<open>destination\<close> with the
  target path. When the response is ok and its body parses, the result is what the
  body holds in \<open>uploaded\<close>.
\<close>

theorem uploadFiles_contract:
  "(let rq = \<lparr>url = API_BASE e @ ''/api/files/upload'', search = [],
              req_method = ''POST'', req_headers = [],
              req_body = Some (FormDataBody
                (map (\<lambda>f. (''files'', FileValue f)) (Array_from files) @
                 [(''destination'', StringValue p)]))\<rparr>
    in snd (uploadFiles e p files log) = log @ [rq] \<and>
       (\<forall>r data names.
          network e log rq = Inr r \<and> ok r \<and> body r = Inr data \<and>
          js_get data ''uploaded'' = Inr names
          \<longrightarrow> fst (uploadFiles e p files log) = Inr names))"
proof -
  have sends: "snd (uploadFiles e p files log) =
      log @ [\<lparr>url = API_BASE e @ ''/api/files/upload'', search = [],
              req_method = ''POST'', req_headers = [],
              req_body = Some (FormDataBody
                (map (\<lambda>f. (''files'', FileValue f)) (Array_from files) @
                 [(''destination'', StringValue p)]))\<rparr>]"
    using uploadFiles_sends [of e p files log] by (simp add: upload_form_eq)
  have returns: "fst (uploadFiles e p files log) = Inr names"
    if "network e log
          \<lparr>url = API_BASE e @ ''/api/files/upload'', search = [],
           req_method = ''POST'', req_headers = [],
           req_body = Some (FormDataBody
             (map (\<lambda>f. (''files'', FileValue f)) (Array_from files) @
              [(''destination'', StringValue p)]))\<rparr> = Inr r"
       "ok r" "body r = Inr data" "js_get data ''uploaded'' = Inr names"
    for r data names
    using that
    by (simp add: uploadFiles_def fetch_def fetch_request_def response_json_def
          upload_form_eq Let_def)
  show ?thesis
    unfolding Let_def using sends returns by blast
qed

theorem uploadFiles_contract_witness:
  "snd (uploadFiles (server_always ok_uploaded) ''docs'' (FileList [file_a, file_b]) []) =
     [\<lparr>url = ''/api/files/upload'', search = [],
       req_method = ''POST'', req_headers = [],
       req_body = Some (FormDataBody
         [(''files'', FileValue file_a), (''files'', FileValue file_b),
          (''destination'', StringValue ''docs'')])\<rparr>]
   \<and> fst (uploadFiles (server_always ok_uploaded) ''docs'' (FileList [file_a, file_b]) []) =
     Inr (Some (JArr [JStr ''a.txt'', JStr ''b.txt'']))"
proof -
  note inst = uploadFiles_contract
    [of "server_always ok_uploaded" "FileList [file_a, file_b]" "''docs''" "[]",
     unfolded Let_def]
  have answered:
    "network (server_always ok_uploaded) []
       \<lparr>url = API_BASE (server_always ok_uploaded) @ ''/api/files/upload'', search = [],
        req_method = ''POST'', req_headers = [],
        req_body = Some (FormDataBody
          (map (\<lambda>f. (''files'', FileValue f)) (Array_from (FileList [file_a, file_b])) @
           [(''destination'', StringValue ''docs'')]))\<rparr> = Inr ok_uploaded
     \<and> ok ok_uploaded
     \<and> body ok_uploaded = Inr (JObj [(''uploaded'', JArr [JStr ''a.txt'', JStr ''b.txt''])])
     \<and> js_get (JObj [(''uploaded'', JArr [JStr ''a.txt'', JStr ''b.txt''])]) ''uploaded'' =
         Inr (Some (JArr [JStr ''a.txt'', JStr ''b.txt'']))"
    by (simp add: server_always_def ok_uploaded_def ok_def js_get_def)
  have "snd (uploadFiles (server_always ok_uploaded) ''docs'' (FileList [file_a, file_b]) []) =
     [\<lparr>url = ''/api/files/upload'', search = [],
       req_method = ''POST'', req_headers = [],
       req_body = Some (FormDataBody
         [(''files'', FileValue file_a), (''files'', FileValue file_b),
          (''destination'', StringValue ''docs'')])\<rparr>]"
    using inst [THEN conjunct1] by (simp add: API_BASE_def server_always_def Array_from_def)
  moreover have
    "fst (uploadFiles (server_always ok_uploaded) ''docs'' (FileList [file_a, file_b]) []) =
       Inr (Some (JArr [JStr ''a.txt'', JStr ''b.txt'']))"
    using inst [THEN conjunct2, rule_format, OF answered] .
  ultimately show ?thesis by (rule conjI)
qed

text \<open>
  C9. For a FileList and for an array of the same files, uploadFiles sends the same
  request, whose form holds every file once, under \<open>files\<close>, in the order given, and
  after them the destination field, once. The whole call, result and requests, is the
  same for both shapes.
\<close>

theorem uploadFiles_shapes:
  "snd (uploadFiles e p (FileList xs) log) =
     log @ [\<lparr>url = API_BASE e @ ''/api/files/upload'', search = [],
             req_method = ''POST'', req_headers = [],
             req_body = Some (FormDataBody
               (map (\<lambda>f. (''files'', FileValue f)) xs @
                [(''destination'', StringValue p)]))\<rparr>]
   \<and> snd (uploadFiles e p (FileArray xs) log) =
     log @ [\<lparr>url = API_BASE e @ ''/api/files/upload'', search = [],
             req_method = ''POST'', req_headers = [],
             req_body = Some (FormDataBody
               (map (\<lambda>f. (''files'', FileValue f)) xs @
                [(''destination'', StringValue p)]))\<rparr>]
   \<and> uploadFiles e p (FileList xs) log = uploadFiles e p (FileArray xs) log"
proof -
  have form: "upload_form p (FileList xs) =
        map (\<lambda>f. (''files'', FileValue f)) xs @ [(''destination'', StringValue p)]"
      "upload_form p (FileArray xs) =
        map (\<lambda>f. (''files'', FileValue f)) xs @ [(''destination'', StringValue p)]"
    by (simp_all add: upload_form_eq Array_from_def)
  have "snd (uploadFiles e p (FileList xs) log) =
     log @ [\<lparr>url = API_BASE e @ ''/api/files/upload'', search = [],
             req_method = ''POST'', req_headers = [],
             req_body = Some (FormDataBody
               (map (\<lambda>f. (''files'', FileValue f)) xs @
                [(''destination'', StringValue p)]))\<rparr>]"
    by (simp only: uploadFiles_sends form)
  moreover have "snd (uploadFiles e p (FileArray xs) log) =
     log @ [\<lparr>url = API_BASE e @ ''/api/files/upload'', search = [],
             req_method = ''POST'', req_headers = [],
             req_body = Some (FormDataBody
               (map (\<lambda>f. (''files'', FileValue f)) xs @
                [(''destination'', StringValue p)]))\<rparr>]"
    by (simp only: uploadFiles_sends form)
  moreover have "uploadFiles e p (FileList xs) log = uploadFiles e p (FileArray xs) log"
    by (simp only: uploadFiles_def form)
  ultimately show ?thesis by (intro conjI)
qed

theorem uploadFiles_shapes_witness:
  "snd (uploadFiles (server_always ok_uploaded) ''docs'' (FileArray [file_a, file_b]) []) =
     [\<lparr>url = ''/api/files/upload'', search = [],
       req_method = ''POST'', req_headers = [],
       req_body = Some (FormDataBody
         [(''files'', FileValue file_a), (''files'', FileValue file_b),
          (''destination'', StringValue ''docs'')])\<rparr>]
   \<and> snd (uploadFiles (server_always ok_uploaded) ''docs'' (FileList [file_a, file_b]) []) =
     [\<lparr>url = ''/api/files/upload'', search = [],
       req_method = ''POST'', req_headers = [],
       req_body = Some (FormDataBody
         [(''files'', FileValue file_a), (''files'', FileValue file_b),
          (''destination'', StringValue ''docs'')])\<rparr>]"
proof -
  note inst =
    uploadFiles_shapes [of "server_always ok_uploaded" "''docs''" "[file_a, file_b]" "[]"]
  have base: "API_BASE (server_always ok_uploaded) = []"
    by (simp add: API_BASE_def server_always_def)
  have "snd (uploadFiles (server_always ok_uploaded) ''docs'' (FileArray [file_a, file_b]) []) =
     [\<lparr>url = ''/api/files/upload'', search = [],
       req_method = ''POST'', req_headers = [],
       req_body = Some (FormDataBody
         [(''files'', FileValue file_a), (''files'', FileValue file_b),
          (''destination'', StringValue ''docs'')])\<rparr>]"
    using inst [THEN conjunct2, THEN conjunct1] by (simp add: base)
  moreover have
    "snd (uploadFiles (server_always ok_uploaded) ''docs'' (FileList [file_a, file_b]) []) =
     [\<lparr>url = ''/api/files/upload'', search = [],
       req_method = ''POST'', req_headers = [],
       req_body = Some (FormDataBody
         [(''files'', FileValue file_a), (''files'', FileValue file_b),
          (''destination'', StringValue ''docs'')])\<rparr>]"
    using inst [THEN conjunct1] by (simp add: base)
  ultimately show ?thesis by (rule conjI)
qed

section \<open>Results of the client's calls\<close>

lemma request_result:
  "network e log (fetch_request (API_BASE e @ input) q init) = Inr r \<Longrightarrow>
   fst (request e input q init log) =
     (if \<not> ok r then Inl (error_of_response r ''Request failed'') else response_json r)"
  by (simp add: request_def fetch_def Let_def)

lemma await_void_fst:
  "fst (await_void p) = (case fst p of Inl err \<Rightarrow> Inl err | Inr _ \<Rightarrow> Inr ())"
  by (simp add: await_void_def split: prod.splits sum.splits)

lemma error_of_response_unparsed:
  "body r = Inl m \<Longrightarrow> error_of_response r fallback = Error (statusText r)"
  by (simp add: error_of_response_def response_json_def js_get_def)

lemma error_of_response_detail:
  "body r = Inr v \<Longrightarrow> js_get v ''detail'' = Inr (Some (JStr d)) \<Longrightarrow>
   error_of_response r fallback = Error d"
  by (simp add: error_of_response_def response_json_def)

lemma deletePath_sends:
  "snd (deletePath e p log) =
     log @ [fetch_request (API_BASE e @ ''/api/files?'') [(''path'', p)]
              (Some \<lparr>init_method = Some ''DELETE'', init_headers = None, init_body = None\<rparr>)]"
  by (simp add: deletePath_def await_void_snd request_sends)

lemma deletePath_result:
  assumes "snd (deletePath e p log) = log @ [rq]" "network e log rq = Inr r"
  shows "fst (deletePath e p log) =
     (if \<not> ok r then Inl (error_of_response r ''Request failed'')
      else case response_json r of Inl err \<Rightarrow> Inl err | Inr _ \<Rightarrow> Inr ())"
proof -
  from assms(1) have "rq = fetch_request (API_BASE e @ ''/api/files?'') [(''path'', p)]
              (Some \<lparr>init_method = Some ''DELETE'', init_headers = None, init_body = None\<rparr>)"
    by (simp add: deletePath_sends)
  with assms(2) show ?thesis
    by (simp add: deletePath_def await_void_fst request_result)
qed

text \<open>
  C1, as the code has it. deletePath rejects exactly when the response is not ok (its
  status is outside 200-299) or its body does not parse. The status 207 is inside the
  range: on a 207 response whose body parses, deletePath resolves.
\<close>

theorem deletePath_rejects_iff:
  assumes "snd (deletePath e p log) = log @ [rq]" and "network e log rq = Inr r"
  shows "(isl (fst (deletePath e p log)) \<longleftrightarrow> \<not> ok r \<or> isl (body r))
       \<and> (status_code r = 207 \<and> \<not> isl (body r) \<longrightarrow> fst (deletePath e p log) = Inr ())"
  using deletePath_result [OF assms]
  by (auto simp: response_json_def ok_def split: sum.splits)

text \<open>
  C1 as stated fails: the server reports a partial delete with status 207 and
  deletePath resolves.
\<close>

theorem deletePath_partial_counterexample:
  "status_code partial_207 = 207
   \<and> fst (deletePath (server_always partial_207) ''docs'' []) = Inr ()"
  by (simp add: partial_207_def deletePath_def await_void_def request_def fetch_def
        server_always_def ok_def response_json_def)


theorem deletePath_rejects_iff_witness:
  "isl (fst (deletePath (server_always not_found_404) ''docs'' []))
   \<and> fst (deletePath (server_always partial_207) ''docs'' []) = Inr ()"
proof -
  let ?rq = "fetch_request ''/api/files?'' [(''path'', ''docs'')]
              (Some \<lparr>init_method = Some ''DELETE'', init_headers = None, init_body = None\<rparr>)"
  have sent: "snd (deletePath (server_always r) ''docs'' []) = [] @ [?rq]" for r
    by (simp add: deletePath_sends API_BASE_def server_always_def)
  have answered: "network (server_always r) [] ?rq = Inr r" for r
    by (simp add: server_always_def)
  have "isl (fst (deletePath (server_always not_found_404) ''docs'' []))"
    using deletePath_rejects_iff [OF sent answered, of not_found_404]
    by (simp add: not_found_404_def ok_def)
  moreover have "fst (deletePath (server_always partial_207) ''docs'' []) = Inr ()"
    using deletePath_rejects_iff [OF sent answered, of partial_207]
    by (simp add: partial_207_def)
  ultimately show ?thesis by (rule conjI)
qed

lemma createFolder_sends:
  "snd (createFolder e p n log) =
     log @ [fetch_request (API_BASE e @ ''/api/files/folder'') []
       (Some \<lparr>init_method = Some ''POST'',
              init_headers = Some [(''Content-Type'', ''application/json'')],
              init_body = Some (JSON_stringify
                (JObj [(''parent'', JStr p), (''name'', JStr n)]))\<rparr>)]"
  by (simp add: createFolder_def await_void_snd request_sends)

lemma renamePath_sends:
  "snd (renamePath e c n log) =
     log @ [fetch_request (API_BASE e @ ''/api/files/rename'') []
       (Some \<lparr>init_method = Some ''PATCH'',
              init_headers = Some [(''Content-Type'', ''application/json'')],
              init_body = Some (JSON_stringify
                (JObj [(''current_path'', JStr c), (''new_path'', JStr n)]))\<rparr>)]"
  by (simp add: renamePath_def await_void_snd request_sends)

lemma getDirectory_result:
  assumes "snd (getDirectory e p log) = log @ [rq]" "network e log rq = Inr r"
  shows "fst (getDirectory e p log) =
     (if \<not> ok r then Inl (error_of_response r ''Request failed'') else response_json r)"
proof -
  from assms(1) have "rq = fetch_request (API_BASE e @ ''/api/files?'')
      (if p = [] then [] else [(''path'', p)]) None"
    by (simp add: getDirectory_sends fetch_request_def)
  with assms(2) show ?thesis
    by (cases "p = []") (simp_all add: getDirectory_def request_result Let_def)
qed

lemma uploadFiles_result:
  assumes "snd (uploadFiles e p files log) = log @ [rq]" "network e log rq = Inr r"
  shows "fst (uploadFiles e p files log) =
     (if \<not> ok r then Inl (error_of_response r ''Upload failed'')
      else case response_json r of Inl err \<Rightarrow> Inl err | Inr data \<Rightarrow> js_get data ''uploaded'')"
proof -
  from assms(1) have "rq = \<lparr>url = API_BASE e @ ''/api/files/upload'', search = [],
             req_method = ''POST'', req_headers = [],
             req_body = Some (FormDataBody (upload_form p files))\<rparr>"
    by (simp add: uploadFiles_sends)
  with assms(2) show ?thesis
    by (simp add: uploadFiles_def fetch_def fetch_request_def Let_def split: sum.splits)
qed

lemma createFolder_result:
  assumes "snd (createFolder e p n log) = log @ [rq]" "network e log rq = Inr r"
  shows "fst (createFolder e p n log) =
     (if \<not> ok r then Inl (error_of_response r ''Request failed'')
      else case response_json r of Inl err \<Rightarrow> Inl err | Inr _ \<Rightarrow> Inr ())"
proof -
  from assms(1) have "rq = fetch_request (API_BASE e @ ''/api/files/folder'') []
       (Some \<lparr>init_method = Some ''POST'',
              init_headers = Some [(''Content-Type'', ''application/json'')],
              init_body = Some (JSON_stringify
                (JObj [(''parent'', JStr p), (''name'', JStr n)]))\<rparr>)"
    by (simp add: createFolder_sends)
  with assms(2) show ?thesis
    by (simp add: createFolder_def await_void_fst request_result)
qed

lemma renamePath_result:
  assumes "snd (renamePath e c n log) = log @ [rq]" "network e log rq = Inr r"
  shows "fst (renamePath e c n log) =
     (if \<not> ok r then Inl (error_of_response r ''Request failed'')
      else case response_json r of Inl err \<Rightarrow> Inl err | Inr _ \<Rightarrow> Inr ())"
proof -
  from assms(1) have "rq = fetch_request (API_BASE e @ ''/api/files/rename'') []
       (Some \<lparr>init_method = Some ''PATCH'',
              init_headers = Some [(''Content-Type'', ''application/json'')],
              init_body = Some (JSON_stringify
                (JObj [(''current_path'', JStr c), (''new_path'', JStr n)]))\<rparr>)"
    by (simp add: renamePath_sends)
  with assms(2) show ?thesis
    by (simp add: renamePath_def await_void_fst request_result)
qed

lemma getDirectory_rejects:
  assumes "network e log \<lparr>url = API_BASE e @ ''/api/files?'',
             search = (if p = [] then [] else [(''path'', p)]),
             req_method = ''GET'', req_headers = [], req_body = None\<rparr> = Inr r"
      and "\<not> ok r"
  shows "fst (getDirectory e p log) = Inl (error_of_response r ''Request failed'')"
  using getDirectory_result [OF getDirectory_sends assms(1)] assms(2) by simp

lemma uploadFiles_rejects:
  assumes "network e log \<lparr>url = API_BASE e @ ''/api/files/upload'', search = [],
             req_method = ''POST'', req_headers = [],
             req_body = Some (FormDataBody
               (map (\<lambda>f. (''files'', FileValue f)) (Array_from files) @
                [(''destination'', StringValue p)]))\<rparr> = Inr r"
      and "\<not> ok r"
  shows "fst (uploadFiles e p files log) = Inl (error_of_response r ''Upload failed'')"
proof -
  have "network e log \<lparr>url = API_BASE e @ ''/api/files/upload'', search = [],
             req_method = ''POST'', req_headers = [],
             req_body = Some (FormDataBody (upload_form p files))\<rparr> = Inr r"
    using assms(1) by (simp only: upload_form_eq)
  from uploadFiles_result [OF uploadFiles_sends this] assms(2) show ?thesis by simp
qed

lemma createFolder_rejects:
  assumes "network e log \<lparr>url = API_BASE e @ ''/api/files/folder'', search = [],
             req_method = ''POST'',
             req_headers = [(''Content-Type'', ''application/json'')],
             req_body = Some (JSON_stringify
               (JObj [(''parent'', JStr p), (''name'', JStr n)]))\<rparr> = Inr r"
      and "\<not> ok r"
  shows "fst (createFolder e p n log) = Inl (error_of_response r ''Request failed'')"
proof -
  have "network e log (fetch_request (API_BASE e @ ''/api/files/folder'') []
       (Some \<lparr>init_method = Some ''POST'',
              init_headers = Some [(''Content-Type'', ''application/json'')],
              init_body = Some (JSON_stringify
                (JObj [(''parent'', JStr p), (''name'', JStr n)]))\<rparr>)) = Inr r"
    using assms(1) by (simp add: fetch_request_def)
  from createFolder_result [OF createFolder_sends this] assms(2) show ?thesis by simp
qed

lemma renamePath_rejects:
  assumes "network e log \<lparr>url = API_BASE e @ ''/api/files/rename'', search = [],
             req_method = ''PATCH'',
             req_headers = [(''Content-Type'', ''application/json'')],
             req_body = Some (JSON_stringify
               (JObj [(''current_path'', JStr c), (''new_path'', JStr n)]))\<rparr> = Inr r"
      and "\<not> ok r"
  shows "fst (renamePath e c n log) = Inl (error_of_response r ''Request failed'')"
proof -
  have "network e log (fetch_request (API_BASE e @ ''/api/files/rename'') []
       (Some \<lparr>init_method = Some ''PATCH'',
              init_headers = Some [(''Content-Type'', ''application/json'')],
              init_body = Some (JSON_stringify
                (JObj [(''current_path'', JStr c), (''new_path'', JStr n)]))\<rparr>)) = Inr r"
    using assms(1) by (simp add: fetch_request_def)
  from renamePath_result [OF renamePath_sends this] assms(2) show ?thesis by simp
qed

lemma deletePath_rejects:
  assumes "network e log \<lparr>url = API_BASE e @ ''/api/files?'', search = [(''path'', p)],
             req_method = ''DELETE'', req_headers = [], req_body = None\<rparr> = Inr r"
      and "\<not> ok r"
  shows "fst (deletePath e p log) = Inl (error_of_response r ''Request failed'')"
proof -
  have "network e log (fetch_request (API_BASE e @ ''/api/files?'') [(''path'', p)]
              (Some \<lparr>init_method = Some ''DELETE'', init_headers = None, init_body = None\<rparr>))
        = Inr r"
    using assms(1) by (simp add: fetch_request_def)
  from deletePath_result [OF deletePath_sends this] assms(2) show ?thesis by simp
qed

lemma error_of_response_null:
  "body r = Inr JNull \<Longrightarrow>
   error_of_response r fallback =
     TypeError (''Cannot read properties of null (reading '' @ [CHR 0x27] @ ''detail'' @
                [CHR 0x27] @ '')'')"
  by (simp add: error_of_response_def response_json_def js_get_def)

lemma error_of_response_no_detail:
  "body r = Inr v \<Longrightarrow> js_get v ''detail'' = Inr None \<or> js_get v ''detail'' = Inr (Some JNull) \<Longrightarrow>
   error_of_response r fallback = Error fallback"
  by (auto simp: error_of_response_def response_json_def)

lemma error_of_response_converted:
  "body r = Inr v \<Longrightarrow> js_get v ''detail'' = Inr (Some d) \<Longrightarrow> d \<noteq> JNull \<Longrightarrow>
   error_of_response r fallback = (case js_to_string d of Inl err \<Rightarrow> err | Inr text \<Rightarrow> Error text)"
  by (cases d) (simp_all add: error_of_response_def response_json_def)

text \<open>
  C2, as the code has it. When the response is not ok, each of the five calls (list,
  upload, create-folder, rename, delete) rejects with the error built from the
  response. Its message is the status text when the body does not parse, and the
  member \<open>detail\<close> when the parsed body carries one that is a string. Any other
  \<open>detail\<close> that is not null is converted to a string, and a conversion that throws
  gives its TypeError. A parsed body without \<open>detail\<close>, or with a null one, gives the
  fixed text of the call. A body that is \<^verbatim>\<open>null\<close> gives a TypeError.
\<close>

theorem api_error_message:
  assumes "\<not> ok r"
  shows
    "(network e log \<lparr>url = API_BASE e @ ''/api/files?'',
          search = (if p = [] then [] else [(''path'', p)]),
          req_method = ''GET'', req_headers = [], req_body = None\<rparr> = Inr r
        \<longrightarrow> fst (getDirectory e p log) = Inl (error_of_response r ''Request failed''))
   \<and> (network e log \<lparr>url = API_BASE e @ ''/api/files/upload'', search = [],
          req_method = ''POST'', req_headers = [],
          req_body = Some (FormDataBody
            (map (\<lambda>f. (''files'', FileValue f)) (Array_from files) @
             [(''destination'', StringValue p)]))\<rparr> = Inr r
        \<longrightarrow> fst (uploadFiles e p files log) = Inl (error_of_response r ''Upload failed''))
   \<and> (network e log \<lparr>url = API_BASE e @ ''/api/files/folder'', search = [],
          req_method = ''POST'',
          req_headers = [(''Content-Type'', ''application/json'')],
          req_body = Some (JSON_stringify
            (JObj [(''parent'', JStr p), (''name'', JStr name)]))\<rparr> = Inr r
        \<longrightarrow> fst (createFolder e p name log) = Inl (error_of_response r ''Request failed''))
   \<and> (network e log \<lparr>url = API_BASE e @ ''/api/files/rename'', search = [],
          req_method = ''PATCH'',
          req_headers = [(''Content-Type'', ''application/json'')],
          req_body = Some (JSON_stringify
            (JObj [(''current_path'', JStr p), (''new_path'', JStr new_path)]))\<rparr> = Inr r
        \<longrightarrow> fst (renamePath e p new_path log) = Inl (error_of_response r ''Request failed''))
   \<and> (network e log \<lparr>url = API_BASE e @ ''/api/files?'', search = [(''path'', p)],
          req_method = ''DELETE'', req_headers = [], req_body = None\<rparr> = Inr r
        \<longrightarrow> fst (deletePath e p log) = Inl (error_of_response r ''Request failed''))
   \<and> (body r = Inl m \<longrightarrow> error_of_response r fallback = Error (statusText r))
   \<and> (body r = Inr v \<and> js_get v ''detail'' = Inr (Some (JStr d))
        \<longrightarrow> error_of_response r fallback = Error d)
   \<and> (body r = Inr v \<and> js_get v ''detail'' = Inr (Some other) \<and> other \<noteq> JNull
        \<longrightarrow> error_of_response r fallback =
            (case js_to_string other of Inl err \<Rightarrow> err | Inr text \<Rightarrow> Error text))
   \<and> (body r = Inr v \<and> (js_get v ''detail'' = Inr None \<or> js_get v ''detail'' = Inr (Some JNull))
        \<longrightarrow> error_of_response r fallback = Error fallback)
   \<and> (body r = Inr JNull
        \<longrightarrow> error_of_response r fallback =
            TypeError (''Cannot read properties of null (reading '' @ [CHR 0x27] @ ''detail'' @
                       [CHR 0x27] @ '')''))"
proof -
  note ops = getDirectory_rejects [OF _ assms] uploadFiles_rejects [OF _ assms]
    createFolder_rejects [OF _ assms] renamePath_rejects [OF _ assms]
    deletePath_rejects [OF _ assms]
  note msgs = error_of_response_unparsed error_of_response_detail error_of_response_converted
    error_of_response_no_detail error_of_response_null
  show ?thesis
    by (intro conjI impI) (erule ops | (elim conjE, erule (2) msgs) | (elim conjE, erule (1) msgs) | erule msgs)+
qed


text \<open>
  C2 as stated fails: a body that parses and has no \<open>detail\<close> gives the message
  \<^verbatim>\<open>Request failed\<close>, which is neither a detail nor the status text, and a \<open>detail\<close>
  that is a list of objects gives \<^verbatim>\<open>[object Object]\<close>.
\<close>

theorem api_error_message_counterexample:
  "\<not> ok server_error_500
   \<and> body server_error_500 = Inr (JObj [(''error'', JStr ''disk failure'')])
   \<and> statusText server_error_500 = ''Internal Server Error''
   \<and> fst (deletePath (server_always server_error_500) ''docs'' []) =
       Inl (Error ''Request failed'')
   \<and> \<not> ok validation_422
   \<and> fst (createFolder (server_always validation_422) [] ''new'' []) =
       Inl (Error ''[object Object]'')"
  by (simp add: server_error_500_def validation_422_def ok_def deletePath_def createFolder_def
        await_void_def request_def fetch_def server_always_def error_of_response_def
        response_json_def js_get_def)

theorem api_error_message_witness:
  "fst (getDirectory (server_always not_found_404) ''docs'' []) = Inl (Error ''Path not found'')
   \<and> fst (uploadFiles (server_always not_found_404) ''docs'' (FileList [file_a]) []) =
       Inl (Error ''Path not found'')
   \<and> fst (createFolder (server_always not_found_404) ''docs'' ''new'' []) =
       Inl (Error ''Path not found'')
   \<and> fst (renamePath (server_always not_found_404) ''docs'' ''docs2'' []) =
       Inl (Error ''Path not found'')
   \<and> fst (deletePath (server_always not_found_404) ''docs'' []) = Inl (Error ''Path not found'')
   \<and> fst (getDirectory (server_always bad_gateway_502) ''docs'' []) = Inl (Error ''Bad Gateway'')"
proof -
  let ?v = "JObj [(''detail'', JStr ''Path not found'')]"
  have net: "network (server_always r) l q = Inr r" for r l q
    by (simp add: server_always_def)
  have nok1: "\<not> ok not_found_404" by (simp add: ok_def not_found_404_def)
  have nok2: "\<not> ok bad_gateway_502" by (simp add: ok_def bad_gateway_502_def)
  have detail1: "body not_found_404 = Inr ?v \<and>
      js_get ?v ''detail'' = Inr (Some (JStr ''Path not found''))"
    by (simp add: not_found_404_def js_get_def)
  have unparsed2: "body bad_gateway_502 = Inl ''Unexpected token < in JSON at position 0''"
    by (simp add: bad_gateway_502_def)
  note inst1 = api_error_message [OF nok1, where e = "server_always not_found_404"
      and p = "''docs''" and log = "[]" and files = "FileList [file_a]" and name = "''new''"
      and new_path = "''docs2''" and v = ?v and d = "''Path not found''"]
  note inst2 = api_error_message [OF nok2, where e = "server_always bad_gateway_502"
      and p = "''docs''" and log = "[]" and fallback = "''Request failed''"
      and m = "''Unexpected token < in JSON at position 0''"]
  note c2 = conjunct2
  have msg1: "error_of_response not_found_404 fb = Error ''Path not found''" for fb
    using inst1 [THEN c2, THEN c2, THEN c2, THEN c2, THEN c2, THEN c2, THEN conjunct1,
                 rule_format, OF detail1] .
  have msg2: "error_of_response bad_gateway_502 ''Request failed'' = Error ''Bad Gateway''"
    using inst2 [THEN c2, THEN c2, THEN c2, THEN c2, THEN c2, THEN conjunct1,
                 rule_format, OF unparsed2]
    by (simp add: bad_gateway_502_def)
  have "fst (getDirectory (server_always not_found_404) ''docs'' []) =
      Inl (error_of_response not_found_404 ''Request failed'')"
    using inst1 [THEN conjunct1, rule_format, OF net] .
  moreover have "fst (uploadFiles (server_always not_found_404) ''docs'' (FileList [file_a]) []) =
      Inl (error_of_response not_found_404 ''Upload failed'')"
    using inst1 [THEN c2, THEN conjunct1, rule_format, OF net] .
  moreover have "fst (createFolder (server_always not_found_404) ''docs'' ''new'' []) =
      Inl (error_of_response not_found_404 ''Request failed'')"
    using inst1 [THEN c2, THEN c2, THEN conjunct1, rule_format, OF net] .
  moreover have "fst (renamePath (server_always not_found_404) ''docs'' ''docs2'' []) =
      Inl (error_of_response not_found_404 ''Request failed'')"
    using inst1 [THEN c2, THEN c2, THEN c2, THEN conjunct1, rule_format, OF net] .
  moreover have "fst (deletePath (server_always not_found_404) ''docs'' []) =
      Inl (error_of_response not_found_404 ''Request failed'')"
    using inst1 [THEN c2, THEN c2, THEN c2, THEN c2, THEN conjunct1, rule_format, OF net] .
  moreover have "fst (getDirectory (server_always bad_gateway_502) ''docs'' []) =
      Inl (error_of_response bad_gateway_502 ''Request failed'')"
    using inst2 [THEN conjunct1, rule_format, OF net] .
  ultimately show ?thesis by (simp only: msg1 msg2 simp_thms)
qed

section \<open>The handlers of App\<close>

lemma refresh_sends:
  "snd (refresh e st p log) =
     log @ [\<lparr>url = API_BASE e @ ''/api/files?'',
             search = (if p = [] then [] else [(''path'', p)]),
             req_method = ''GET'', req_headers = [], req_body = None\<rparr>]"
proof -
  have "snd (refresh e st p log) = snd (getDirectory e p log)"
    by (simp add: refresh_def Let_def split: prod.splits sum.splits)
  then show ?thesis by (simp only: getDirectory_sends)
qed

lemma rename_target:
  assumes "\<forall>x\<in>set ps. x \<noteq> []" and "n \<noteq> []"
  shows "join ''/'' (filter_Boolean [join ''/'' ps, n]) = join ''/'' (ps @ [n])"
proof (cases "ps = []")
  case True
  with assms(2) show ?thesis by (simp add: filter_Boolean_def)
next
  case False
  with assms(1) have "join ''/'' ps \<noteq> []" by (simp add: join_eq_Nil)
  with assms(2) False show ?thesis by (simp add: filter_Boolean_def join_snoc)
qed

lemma butlast_segments_ok:
  "x \<in> set (butlast (segments p)) \<Longrightarrow> x \<noteq> [] \<and> CHR ''/'' \<notin> set x"
  using segments_ok [of x p] by (auto dest: in_set_butlastD)

lemma handleRename_target:
  "n \<noteq> [] \<Longrightarrow>
   join ''/'' (filter_Boolean [join ''/'' (butlast (segments p)), n]) =
   join ''/'' (butlast (segments p) @ [n])"
  by (rule rename_target) (auto dest: butlast_segments_ok)

lemma handleRename_sends:
  assumes "n \<noteq> []" "n \<noteq> item_name item"
  shows "\<exists>rest. snd (handleRename e st item (Some n) log) =
     log @ \<lparr>url = API_BASE e @ ''/api/files/rename'', search = [],
            req_method = ''PATCH'',
            req_headers = [(''Content-Type'', ''application/json'')],
            req_body = Some (JSON_stringify
              (JObj [(''current_path'', JStr (item_path item)),
                     (''new_path'', JStr (join ''/'' (butlast (segments (item_path item)) @ [n])))]))\<rparr>
       # rest"
proof -
  let ?t = "join ''/'' (butlast (segments (item_path item)) @ [n])"
  obtain res log' where r: "renamePath e (item_path item) ?t log = (res, log')"
    by (cases "renamePath e (item_path item) ?t log") auto
  have log': "log' = log @ [fetch_request (API_BASE e @ ''/api/files/rename'') []
       (Some \<lparr>init_method = Some ''PATCH'',
              init_headers = Some [(''Content-Type'', ''application/json'')],
              init_body = Some (JSON_stringify
                (JObj [(''current_path'', JStr (item_path item)), (''new_path'', JStr ?t)]))\<rparr>)]"
    using renamePath_sends [of e "item_path item" ?t log] r by simp
  show ?thesis
  proof (cases res)
    case (Inl err)
    with assms r log' show ?thesis
      by (simp add: handleRename_def Let_def handleRename_target fetch_request_def)
  next
    case (Inr u)
    with assms r log' show ?thesis
      by (simp add: handleRename_def Let_def handleRename_target fetch_request_def refresh_sends)
  qed
qed

lemma handleCreateFolder_sends:
  assumes "n \<noteq> []"
  shows "\<exists>rest. snd (handleCreateFolder e st (Some n) log) =
     log @ \<lparr>url = API_BASE e @ ''/api/files/folder'', search = [],
            req_method = ''POST'',
            req_headers = [(''Content-Type'', ''application/json'')],
            req_body = Some (JSON_stringify
              (JObj [(''parent'', JStr (currentPath st)), (''name'', JStr n)]))\<rparr>
       # rest"
proof -
  obtain res log' where r: "createFolder e (currentPath st) n log = (res, log')"
    by (cases "createFolder e (currentPath st) n log") auto
  have log': "log' = log @ [fetch_request (API_BASE e @ ''/api/files/folder'') []
       (Some \<lparr>init_method = Some ''POST'',
              init_headers = Some [(''Content-Type'', ''application/json'')],
              init_body = Some (JSON_stringify
                (JObj [(''parent'', JStr (currentPath st)), (''name'', JStr n)]))\<rparr>)]"
    using createFolder_sends [of e "currentPath st" n log] r by simp
  show ?thesis
  proof (cases res)
    case (Inl err)
    with assms r log' show ?thesis
      by (simp add: handleCreateFolder_def fetch_request_def)
  next
    case (Inr u)
    with assms r log' show ?thesis
      by (simp add: handleCreateFolder_def fetch_request_def refresh_sends)
  qed
qed

lemma handleRename_idle:
  "prompt = None \<or> prompt = Some [] \<or> prompt = Some (item_name item) \<Longrightarrow>
   handleRename e st item prompt log = (st, log)"
  by (auto simp: handleRename_def Let_def)


lemma split_on_rename_target:
  assumes "CHR ''/'' \<notin> set n"
  shows "split_on CHR ''/'' (join ''/'' (butlast (segments p) @ [n])) = butlast (segments p) @ [n]"
proof -
  have "\<forall>x\<in>set (butlast (segments p) @ [n]). CHR ''/'' \<notin> set x"
    using assms by (auto dest: butlast_segments_ok)
  then show ?thesis
    using split_on_join [of "butlast (segments p) @ [n]" "CHR ''/''"] by simp
qed

text \<open>
  C8, as the code has it. handleRename sends nothing and changes nothing when the
  prompt is cancelled, empty or the item's own name. Otherwise its first request is
  the rename of the item's path to the '/'-join of the item's parent segments and the
  new name as typed. When the new name holds no separator, the segments of that path
  are the parent segments followed by the new name, so only the last segment differs.
\<close>

theorem handleRename_keeps_parent:
  "(prompt = None \<or> prompt = Some [] \<or> prompt = Some (item_name item)
      \<longrightarrow> handleRename e st item prompt log = (st, log))
   \<and> (newName \<noteq> [] \<and> newName \<noteq> item_name item
      \<longrightarrow> (\<exists>rest. snd (handleRename e st item (Some newName) log) =
             log @ \<lparr>url = API_BASE e @ ''/api/files/rename'', search = [],
                    req_method = ''PATCH'',
                    req_headers = [(''Content-Type'', ''application/json'')],
                    req_body = Some (JSON_stringify
                      (JObj [(''current_path'', JStr (item_path item)),
                             (''new_path'', JStr (join ''/''
                                (butlast (segments (item_path item)) @ [newName])))]))\<rparr>
               # rest)
        \<and> (CHR ''/'' \<notin> set newName
            \<longrightarrow> segments (join ''/'' (butlast (segments (item_path item)) @ [newName])) =
                butlast (segments (item_path item)) @ [newName]))"
proof -
  have seg: "segments (join ''/'' (butlast (segments (item_path item)) @ [newName])) =
                butlast (segments (item_path item)) @ [newName]"
    if "newName \<noteq> []" "CHR ''/'' \<notin> set newName"
    using that by (intro segments_join) (auto dest: butlast_segments_ok)
  show ?thesis
    using handleRename_idle [of prompt item e st log]
          handleRename_sends [of newName item e st log] seg
    by blast
qed

theorem handleRename_keeps_parent_witness:
  "handleRename (server_always ok_listing) initial_state item_a (Some ''a.txt'') [] =
     (initial_state, [])
   \<and> (\<exists>rest. snd (handleRename (server_always ok_listing) initial_state item_a (Some ''b.txt'') []) =
        \<lparr>url = ''/api/files/rename'', search = [],
         req_method = ''PATCH'',
         req_headers = [(''Content-Type'', ''application/json'')],
         req_body = Some (JSON_stringify
           (JObj [(''current_path'', JStr ''docs/a.txt''),
                  (''new_path'', JStr ''docs/b.txt'')]))\<rparr> # rest)"
proof -
  have segs: "segments ''docs/a.txt'' = [''docs'', ''a.txt'']"
    by (simp add: segments_def filter_Boolean_def)
  have idle: "handleRename (server_always ok_listing) initial_state item_a (Some ''a.txt'') [] =
     (initial_state, [])"
    using handleRename_keeps_parent
      [of "Some ''a.txt''" item_a "server_always ok_listing" initial_state "[]" "''b.txt''"]
    by (simp add: item_a_def)
  have "\<exists>rest. snd (handleRename (server_always ok_listing) initial_state item_a (Some ''b.txt'') []) =
        [] @ \<lparr>url = API_BASE (server_always ok_listing) @ ''/api/files/rename'', search = [],
         req_method = ''PATCH'',
         req_headers = [(''Content-Type'', ''application/json'')],
         req_body = Some (JSON_stringify
           (JObj [(''current_path'', JStr (item_path item_a)),
                  (''new_path'', JStr (join ''/''
                     (butlast (segments (item_path item_a)) @ [''b.txt''])))]))\<rparr> # rest"
    using handleRename_keeps_parent
      [of "Some ''a.txt''" item_a "server_always ok_listing" initial_state "[]" "''b.txt''"]
    by (simp add: item_a_def)
  then have "\<exists>rest. snd (handleRename (server_always ok_listing) initial_state item_a (Some ''b.txt'') []) =
        \<lparr>url = ''/api/files/rename'', search = [],
         req_method = ''PATCH'',
         req_headers = [(''Content-Type'', ''application/json'')],
         req_body = Some (JSON_stringify
           (JObj [(''current_path'', JStr ''docs/a.txt''),
                  (''new_path'', JStr ''docs/b.txt'')]))\<rparr> # rest"
    by (simp add: item_a_def segs API_BASE_def server_always_def)
  with idle show ?thesis by (rule conjI)
qed


text \<open>
  C8 as stated fails: for the new name \<^verbatim>\<open>x/y\<close> the path sent has the segments docs,
  x, y, so more than the last segment of docs/a.txt has changed.
\<close>

theorem handleRename_separator_counterexample:
  "hd (snd (handleRename (server_always ok_listing) initial_state item_a (Some ''x/y'') [])) =
     \<lparr>url = ''/api/files/rename'', search = [],
      req_method = ''PATCH'',
      req_headers = [(''Content-Type'', ''application/json'')],
      req_body = Some (JSON_stringify
        (JObj [(''current_path'', JStr ''docs/a.txt''), (''new_path'', JStr ''docs/x/y'')]))\<rparr>
   \<and> segments ''docs/a.txt'' = [''docs'', ''a.txt'']
   \<and> segments ''docs/x/y'' = [''docs'', ''x'', ''y'']
   \<and> butlast (segments ''docs/x/y'') \<noteq> butlast (segments ''docs/a.txt'')"
proof -
  have segs: "segments ''docs/a.txt'' = [''docs'', ''a.txt'']"
             "segments ''docs/x/y'' = [''docs'', ''x'', ''y'']"
    by (simp_all add: segments_def filter_Boolean_def)
  have "hd (snd (handleRename (server_always ok_listing) initial_state item_a (Some ''x/y'') [])) =
     \<lparr>url = ''/api/files/rename'', search = [],
      req_method = ''PATCH'',
      req_headers = [(''Content-Type'', ''application/json'')],
      req_body = Some (JSON_stringify
        (JObj [(''current_path'', JStr ''docs/a.txt''), (''new_path'', JStr ''docs/x/y'')]))\<rparr>"
    by (simp add: handleRename_def renamePath_def await_void_def request_def fetch_def
          fetch_request_def server_always_def ok_listing_def ok_def response_json_def
          API_BASE_def initial_state_def refresh_sends item_a_def segs filter_Boolean_def)
  moreover have "butlast (segments ''docs/x/y'') \<noteq> butlast (segments ''docs/a.txt'')"
    by (simp add: segs)
  ultimately show ?thesis using segs by (intro conjI)
qed

lemma path_invariant_rename_target:
  assumes "n \<noteq> []" "CHR ''/'' \<notin> set n"
  shows "path_invariant (join ''/'' (butlast (segments p) @ [n])) \<longleftrightarrow>
     is_segment n \<and> (\<forall>s\<in>set (butlast (segments p)). s \<noteq> ''.'' \<and> s \<noteq> ''..'')"
proof -
  have "path_invariant (join ''/'' (butlast (segments p) @ [n])) \<longleftrightarrow>
      list_all is_segment (butlast (segments p) @ [n])"
    by (simp only: path_invariant_def is_VirtualPath_def split_on_rename_target [OF assms(2)])
  also have "\<dots> \<longleftrightarrow> is_segment n \<and> (\<forall>s\<in>set (butlast (segments p)). is_segment s)"
    by (auto simp: list_all_iff)
  also have "\<dots> \<longleftrightarrow> is_segment n \<and> (\<forall>s\<in>set (butlast (segments p)). s \<noteq> ''.'' \<and> s \<noteq> ''..'')"
    using butlast_segments_ok [of _ p] by (auto simp: is_segment_def)
  finally show ?thesis .
qed

text \<open>
  C3, as the code has it. The client checks a prompted name for emptiness only.
  handleCreateFolder submits every other name as it was typed, and handleRename
  submits the '/'-join of the item's parent segments and the name as it was typed. For
  a name without separator the submitted rename target keeps the invariant of a
  virtual path exactly when the name is a segment (not empty, not \<^verbatim>\<open>.\<close> or \<^verbatim>\<open>..\<close>)
  and no parent segment of the item is \<^verbatim>\<open>.\<close> or \<^verbatim>\<open>..\<close>.
\<close>

theorem prompted_names_submitted:
  "(name \<noteq> []
      \<longrightarrow> (\<exists>rest. snd (handleCreateFolder e st (Some name) log) =
             log @ \<lparr>url = API_BASE e @ ''/api/files/folder'', search = [],
                    req_method = ''POST'',
                    req_headers = [(''Content-Type'', ''application/json'')],
                    req_body = Some (JSON_stringify
                      (JObj [(''parent'', JStr (currentPath st)), (''name'', JStr name)]))\<rparr>
               # rest))
   \<and> (newName \<noteq> [] \<and> newName \<noteq> item_name item
      \<longrightarrow> (\<exists>rest. snd (handleRename e st item (Some newName) log) =
             log @ \<lparr>url = API_BASE e @ ''/api/files/rename'', search = [],
                    req_method = ''PATCH'',
                    req_headers = [(''Content-Type'', ''application/json'')],
                    req_body = Some (JSON_stringify
                      (JObj [(''current_path'', JStr (item_path item)),
                             (''new_path'', JStr (join ''/''
                                (butlast (segments (item_path item)) @ [newName])))]))\<rparr>
               # rest))
   \<and> (newName \<noteq> [] \<and> CHR ''/'' \<notin> set newName
      \<longrightarrow> (path_invariant (join ''/'' (butlast (segments (item_path item)) @ [newName])) \<longleftrightarrow>
           is_segment newName \<and>
           (\<forall>s\<in>set (butlast (segments (item_path item))). s \<noteq> ''.'' \<and> s \<noteq> ''..'')))"
  using handleCreateFolder_sends [of name e st log]
        handleRename_sends [of newName item e st log]
        path_invariant_rename_target [of newName "item_path item"]
  by blast

text \<open>
  C3 as stated fails: the folder name \<^verbatim>\<open>../x\<close> and the new name \<^verbatim>\<open>..\<close> are
  submitted as typed.
\<close>

theorem prompted_names_counterexample:
  "hd (snd (handleCreateFolder (server_always ok_listing) initial_state (Some ''../x'') [])) =
     \<lparr>url = ''/api/files/folder'', search = [],
      req_method = ''POST'',
      req_headers = [(''Content-Type'', ''application/json'')],
      req_body = Some (JSON_stringify
        (JObj [(''parent'', JStr []), (''name'', JStr ''../x'')]))\<rparr>
   \<and> \<not> is_segment ''../x''
   \<and> hd (snd (handleRename (server_always ok_listing) initial_state item_a (Some ''..'') [])) =
     \<lparr>url = ''/api/files/rename'', search = [],
      req_method = ''PATCH'',
      req_headers = [(''Content-Type'', ''application/json'')],
      req_body = Some (JSON_stringify
        (JObj [(''current_path'', JStr ''docs/a.txt''), (''new_path'', JStr ''docs/..'')]))\<rparr>
   \<and> \<not> path_invariant ''docs/..''"
proof -
  have segs: "segments ''docs/a.txt'' = [''docs'', ''a.txt'']"
    by (simp add: segments_def filter_Boolean_def)
  have 1: "hd (snd (handleCreateFolder (server_always ok_listing) initial_state (Some ''../x'') [])) =
     \<lparr>url = ''/api/files/folder'', search = [],
      req_method = ''POST'',
      req_headers = [(''Content-Type'', ''application/json'')],
      req_body = Some (JSON_stringify
        (JObj [(''parent'', JStr []), (''name'', JStr ''../x'')]))\<rparr>"
    by (simp add: handleCreateFolder_def createFolder_def await_void_def request_def fetch_def
          fetch_request_def server_always_def ok_listing_def ok_def response_json_def
          API_BASE_def initial_state_def refresh_sends)
  have 2: "\<not> is_segment ''../x''" by (simp add: is_segment_def)
  have 3: "hd (snd (handleRename (server_always ok_listing) initial_state item_a (Some ''..'') [])) =
     \<lparr>url = ''/api/files/rename'', search = [],
      req_method = ''PATCH'',
      req_headers = [(''Content-Type'', ''application/json'')],
      req_body = Some (JSON_stringify
        (JObj [(''current_path'', JStr ''docs/a.txt''), (''new_path'', JStr ''docs/..'')]))\<rparr>"
    by (simp add: handleRename_def renamePath_def await_void_def request_def fetch_def
          fetch_request_def server_always_def ok_listing_def ok_def response_json_def
          API_BASE_def initial_state_def refresh_sends item_a_def segs filter_Boolean_def)
  have 4: "\<not> path_invariant ''docs/..''"
    by (simp add: path_invariant_def is_VirtualPath_def is_segment_def)
  from 1 2 3 4 show ?thesis by blast
qed

theorem prompted_names_submitted_witness:
  "(\<exists>rest. snd (handleCreateFolder (server_always ok_listing) initial_state (Some ''new'') []) =
        \<lparr>url = ''/api/files/folder'', search = [],
         req_method = ''POST'',
         req_headers = [(''Content-Type'', ''application/json'')],
         req_body = Some (JSON_stringify
           (JObj [(''parent'', JStr []), (''name'', JStr ''new'')]))\<rparr> # rest)
   \<and> path_invariant ''docs/b.txt''"
proof -
  note inst = prompted_names_submitted
    [of "''new''" "server_always ok_listing" initial_state "[]" "''b.txt''" item_a]
  have segs: "segments ''docs/a.txt'' = [''docs'', ''a.txt'']"
    by (simp add: segments_def filter_Boolean_def)
  have "\<exists>rest. snd (handleCreateFolder (server_always ok_listing) initial_state (Some ''new'') []) =
        [] @ \<lparr>url = API_BASE (server_always ok_listing) @ ''/api/files/folder'', search = [],
         req_method = ''POST'',
         req_headers = [(''Content-Type'', ''application/json'')],
         req_body = Some (JSON_stringify
           (JObj [(''parent'', JStr (currentPath initial_state)), (''name'', JStr ''new'')]))\<rparr> # rest"
    using inst [THEN conjunct1] by simp
  then have a: "\<exists>rest. snd (handleCreateFolder (server_always ok_listing) initial_state (Some ''new'') []) =
        \<lparr>url = ''/api/files/folder'', search = [],
         req_method = ''POST'',
         req_headers = [(''Content-Type'', ''application/json'')],
         req_body = Some (JSON_stringify
           (JObj [(''parent'', JStr []), (''name'', JStr ''new'')]))\<rparr> # rest"
    by (simp add: API_BASE_def server_always_def initial_state_def)
  have "path_invariant (join ''/'' (butlast (segments (item_path item_a)) @ [''b.txt'']))"
    using inst [THEN conjunct2, THEN conjunct2]
    by (simp add: item_a_def segs is_segment_def)
  then have b: "path_invariant ''docs/b.txt''"
    by (simp add: item_a_def segs)
  from a b show ?thesis by (rule conjI)
qed


lemma crumbs_segments: "crumbs p = segments p"
  by (simp add: crumbs_def segments_def filter_Boolean_def)

lemma breadcrumbs_root:
  "breadcrumbs (render st) ! 0 = \<lparr>label = ''Root'', disabled = False, onClick = NavigateTo []\<rparr>"
  by (simp add: render_def Let_def)

lemma breadcrumbs_crumb:
  assumes "i < length (crumbs (currentPath st))"
  shows "breadcrumbs (render st) ! (i + 1) =
     \<lparr>label = crumbs (currentPath st) ! i, disabled = False,
      onClick = NavigateTo (join ''/'' (take (i + 1) (crumbs (currentPath st))))\<rparr>"
  using assms by (simp add: render_def Let_def)

lemma segments_take:
  "segments (join ''/'' (take k (segments p))) = take k (segments p)"
  by (rule segments_join) (auto dest: in_set_takeD segments_ok)

lemma click_NavigateTo:
  "\<not> disabled b \<Longrightarrow> onClick b = NavigateTo t \<Longrightarrow> click e st prompt b log = navigateTo e st t log"
  by (simp add: click_def)

lemma navigateTo_sends:
  "snd (navigateTo e st p log) =
     log @ [\<lparr>url = API_BASE e @ ''/api/files?'',
             search = (if p = [] then [] else [(''path'', p)]),
             req_method = ''GET'', req_headers = [], req_body = None\<rparr>]"
  by (simp add: navigateTo_def refresh_sends)

lemma join_take_not_Nil:
  assumes "i < length (segments p)"
  shows "join ''/'' (take (i + 1) (segments p)) \<noteq> []"
proof -
  have "\<forall>x\<in>set (take (i + 1) (segments p)). x \<noteq> []"
    by (auto dest: in_set_takeD segments_ok)
  moreover have "take (i + 1) (segments p) \<noteq> []" using assms by auto
  ultimately show ?thesis by (simp add: join_eq_Nil)
qed

text \<open>
  C10. The click on the breadcrumb of index \<open>i\<close> navigates to the '/'-join of the
  first \<open>i + 1\<close> segments of the current path: it requests that directory, and the
  segments of the target are a prefix of the segments of the current path. The click
  on Root navigates to the empty path.
\<close>

theorem breadcrumb_navigation:
  assumes "cs = crumbs (currentPath st)"
      and "target = join ''/'' (take (i + 1) cs)"
      and "crumb = breadcrumbs (render st) ! (i + 1)"
      and "root = breadcrumbs (render st) ! 0"
  shows "(i < length cs \<longrightarrow>
            label crumb = cs ! i
          \<and> click e st prompt crumb log = navigateTo e st target log
          \<and> snd (click e st prompt crumb log) =
              log @ [\<lparr>url = API_BASE e @ ''/api/files?'', search = [(''path'', target)],
                      req_method = ''GET'', req_headers = [], req_body = None\<rparr>]
          \<and> segments target = take (i + 1) (segments (currentPath st))
          \<and> prefix (segments target) (segments (currentPath st)))
       \<and> click e st prompt root log = navigateTo e st [] log
       \<and> snd (click e st prompt root log) =
              log @ [\<lparr>url = API_BASE e @ ''/api/files?'', search = [],
                      req_method = ''GET'', req_headers = [], req_body = None\<rparr>]"
proof -
  have root: "click e st prompt root log = navigateTo e st [] log"
    using assms(4) by (simp add: breadcrumbs_root click_NavigateTo)
  have root_sends: "snd (click e st prompt root log) =
              log @ [\<lparr>url = API_BASE e @ ''/api/files?'', search = [],
                      req_method = ''GET'', req_headers = [], req_body = None\<rparr>]"
    by (simp add: root navigateTo_sends)
  have crumb: "label crumb = cs ! i
          \<and> click e st prompt crumb log = navigateTo e st target log
          \<and> snd (click e st prompt crumb log) =
              log @ [\<lparr>url = API_BASE e @ ''/api/files?'', search = [(''path'', target)],
                      req_method = ''GET'', req_headers = [], req_body = None\<rparr>]
          \<and> segments target = take (i + 1) (segments (currentPath st))
          \<and> prefix (segments target) (segments (currentPath st))"
    if lt: "i < length cs"
  proof -
    from lt assms(1) have b: "crumb =
       \<lparr>label = cs ! i, disabled = False, onClick = NavigateTo target\<rparr>"
      using breadcrumbs_crumb [of i st] assms(2,3) by simp
    then have c: "click e st prompt crumb log = navigateTo e st target log"
      by (simp add: click_NavigateTo)
    from lt assms(1,2) have ne: "target \<noteq> []"
      using join_take_not_Nil [of i "currentPath st"] by (simp add: crumbs_segments)
    have s: "segments target = take (i + 1) (segments (currentPath st))"
      using assms(1,2) by (simp only: crumbs_segments segments_take)
    have "prefix (take (i + 1) (segments (currentPath st))) (segments (currentPath st))"
      by (rule take_is_prefix)
    with b c ne s show ?thesis by (simp add: navigateTo_sends)
  qed
  from root root_sends crumb show ?thesis by blast
qed

theorem breadcrumb_navigation_witness:
  "click (server_always ok_listing) in_docs_a None (breadcrumbs (render in_docs_a) ! 1) [] =
     navigateTo (server_always ok_listing) in_docs_a ''docs'' []
   \<and> click (server_always ok_listing) in_docs_a None (breadcrumbs (render in_docs_a) ! 2) [] =
     navigateTo (server_always ok_listing) in_docs_a ''docs/a'' []
   \<and> click (server_always ok_listing) in_docs_a None (breadcrumbs (render in_docs_a) ! 0) [] =
     navigateTo (server_always ok_listing) in_docs_a [] []"
proof -
  have cs: "crumbs (currentPath in_docs_a) = [''docs'', ''a'']"
    by (simp add: in_docs_a_def crumbs_def segments_def filter_Boolean_def)
  have t0: "''docs'' = join ''/'' (take (0 + 1) [''docs'', ''a''])" by simp
  have t1: "''docs/a'' = join ''/'' (take (1 + 1) [''docs'', ''a''])" by simp
  have "click (server_always ok_listing) in_docs_a None (breadcrumbs (render in_docs_a) ! (0 + 1)) [] =
     navigateTo (server_always ok_listing) in_docs_a ''docs'' []"
    using breadcrumb_navigation [OF cs [symmetric] t0 refl refl,
            where e = "server_always ok_listing" and prompt = None and log = "[]"] by simp
  moreover have "click (server_always ok_listing) in_docs_a None (breadcrumbs (render in_docs_a) ! (1 + 1)) [] =
     navigateTo (server_always ok_listing) in_docs_a ''docs/a'' []"
    using breadcrumb_navigation [OF cs [symmetric] t1 refl refl,
            where e = "server_always ok_listing" and prompt = None and log = "[]"] by simp
  moreover have "click (server_always ok_listing) in_docs_a None (breadcrumbs (render in_docs_a) ! 0) [] =
     navigateTo (server_always ok_listing) in_docs_a [] []"
    using breadcrumb_navigation [OF cs [symmetric] t0 refl refl,
            where e = "server_always ok_listing" and prompt = None and log = "[]"] by simp
  ultimately show ?thesis by (simp add: numeral_2_eq_2)
qed

section \<open>Up One Level\<close>

text \<open>The listing and the current path stay in step through every handler.\<close>

lemma in_sync_initial: "in_sync initial_state"
  by (simp add: in_sync_def initial_state_def)

lemma in_sync_refresh:
  assumes "in_sync st"
  shows "in_sync (fst (refresh e st p log))"
proof -
  obtain res log' where g: "getDirectory e p log = (res, log')"
    by (cases "getDirectory e p log") auto
  show ?thesis
  proof (cases res)
    case (Inl err)
    with g assms show ?thesis by (simp add: refresh_def in_sync_def split: option.splits)
  next
    case (Inr data)
    with g assms show ?thesis
      by (cases "js_get data ''path''") (simp_all add: refresh_def in_sync_def split: option.splits)
  qed
qed

lemma in_sync_status: "in_sync (st\<lparr>status := s\<rparr>) = in_sync st"
  by (simp add: in_sync_def split: option.splits)

lemma in_sync_error: "in_sync (st\<lparr>error := s\<rparr>) = in_sync st"
  by (simp add: in_sync_def split: option.splits)

lemma in_sync_handleCreateFolder:
  "in_sync st \<Longrightarrow> in_sync (fst (handleCreateFolder e st prompt log))"
  by (auto simp: handleCreateFolder_def in_sync_refresh in_sync_status in_sync_error
        split: option.splits prod.splits sum.splits)

lemma in_sync_handleDelete:
  "in_sync st \<Longrightarrow> in_sync (fst (handleDelete e st item confirmed log))"
  by (auto simp: handleDelete_def in_sync_refresh in_sync_status in_sync_error
        split: option.splits prod.splits sum.splits)

lemma in_sync_handleRename:
  "in_sync st \<Longrightarrow> in_sync (fst (handleRename e st item prompt log))"
  by (auto simp: handleRename_def Let_def in_sync_refresh in_sync_status in_sync_error
        split: option.splits prod.splits sum.splits)

lemma in_sync_click:
  "in_sync st \<Longrightarrow> in_sync (fst (click e st prompt b log))"
  by (auto simp: click_def goUp_def navigateTo_def in_sync_refresh in_sync_handleCreateFolder
        split: action.splits)

lemma list_directory_parent:
  assumes "is_VirtualPath vp"
  shows "parent (list_directory vp entries) = None \<longleftrightarrow> path (list_directory vp entries) = []"
proof -
  from assms have "\<forall>x\<in>set vp. x \<noteq> []"
    by (auto simp: is_VirtualPath_def list_all_iff is_segment_def)
  then have "join ''/'' vp = [] \<longleftrightarrow> vp = []" by (rule join_eq_Nil)
  then show ?thesis by (simp add: list_directory_def)
qed

lemma up_button:
  "toolbar_buttons (toolbar (render st)) ! 2 =
     \<lparr>label = ''Up One Level'', disabled = (currentPath st = []), onClick = GoUp\<rparr>"
  by (simp add: render_def Toolbar_def Let_def)

text \<open>
  C7. A DirectoryListing has a path, a parent that may be null and the list of its
  items. In a listing the indexer gives, the parent is null exactly when the path is
  the empty path. With such a listing loaded, the button Up One Level is disabled
  exactly when the parent is null, a disabled button does nothing, and otherwise the
  click navigates to the parent of the listing. (The listing is loaded: it is the
  state's listing, and the state is one that the handlers keep in step.)
\<close>

theorem up_one_level:
  assumes "is_VirtualPath vp"
      and "l = list_directory vp entries"
      and "listing st = Some l"
      and "in_sync st"
      and "up = toolbar_buttons (toolbar (render st)) ! 2"
  shows "(parent l = None \<longleftrightarrow> path l = [])
       \<and> label up = ''Up One Level''
       \<and> (disabled up \<longleftrightarrow> parent l = None)
       \<and> (disabled up \<longrightarrow> click e st prompt up log = (st, log))
       \<and> (\<forall>p. parent l = Some p \<longrightarrow>
             click e st prompt up log = navigateTo e st p log
           \<and> snd (click e st prompt up log) =
               log @ [\<lparr>url = API_BASE e @ ''/api/files?'',
                       search = (if p = [] then [] else [(''path'', p)]),
                       req_method = ''GET'', req_headers = [], req_body = None\<rparr>])"
proof -
  have inv: "parent l = None \<longleftrightarrow> path l = []"
    using assms(1,2) by (simp only: list_directory_parent)
  have cur: "currentPath st = path l"
    using assms(3,4) by (simp add: in_sync_def)
  have up: "up = \<lparr>label = ''Up One Level'', disabled = (path l = []), onClick = GoUp\<rparr>"
    using cur assms(5) by (simp add: up_button)
  have dis: "disabled up \<longleftrightarrow> parent l = None"
    using up inv by simp
  have idle: "click e st prompt up log = (st, log)" if "disabled up"
    using that by (simp add: click_def)
  have go: "click e st prompt up log = navigateTo e st p log" if "parent l = Some p" for p
  proof -
    from that dis have "\<not> disabled up" by simp
    with up that assms(3) show ?thesis
      by (simp add: click_def goUp_def navigateTo_def)
  qed
  have sends: "snd (click e st prompt up log) =
               log @ [\<lparr>url = API_BASE e @ ''/api/files?'',
                       search = (if p = [] then [] else [(''path'', p)]),
                       req_method = ''GET'', req_headers = [], req_body = None\<rparr>]"
    if "parent l = Some p" for p
    using go [OF that] by (simp only: navigateTo_sends)
  from inv up dis idle go sends show ?thesis by auto
qed


theorem up_one_level_witness:
  "disabled (toolbar_buttons (toolbar (render
      (fst (refresh (server_always ok_root_listing) initial_state [] [])))) ! 2)
   \<and> click (server_always ok_listing)
       (fst (refresh (server_always ok_listing) initial_state ''docs'' [])) None
       (toolbar_buttons (toolbar (render
          (fst (refresh (server_always ok_listing) initial_state ''docs'' [])))) ! 2) [] =
     navigateTo (server_always ok_listing)
       (fst (refresh (server_always ok_listing) initial_state ''docs'' [])) [] []"
proof -
  let ?root = "fst (refresh (server_always ok_root_listing) initial_state [] [])"
  let ?docs = "fst (refresh (server_always ok_listing) initial_state ''docs'' [])"
  have vp_root: "is_VirtualPath []" by (simp add: is_VirtualPath_def)
  have vp_docs: "is_VirtualPath [''docs'']" by (simp add: is_VirtualPath_def is_segment_def)
  have sync_root: "in_sync ?root" and sync_docs: "in_sync ?docs"
    by (rule in_sync_refresh [OF in_sync_initial])+
  have root: "listing ?root = Some (list_directory [] [])"
    by (simp_all add: refresh_def getDirectory_def request_def fetch_def server_always_def
          ok_root_listing_def ok_def response_json_def js_get_def as_DirectoryListing_def
          string_member_def list_directory_def)
  have docs: "listing ?docs = Some (list_directory [''docs''] [])"
    by (simp_all add: refresh_def getDirectory_def request_def fetch_def server_always_def
          ok_listing_def ok_def response_json_def js_get_def as_DirectoryListing_def
          string_member_def list_directory_def)
  have "disabled (toolbar_buttons (toolbar (render ?root)) ! 2)"
    using up_one_level [OF vp_root refl root sync_root refl]
    by (simp add: list_directory_def)
  moreover have "click (server_always ok_listing) ?docs None
       (toolbar_buttons (toolbar (render ?docs)) ! 2) [] =
     navigateTo (server_always ok_listing) ?docs [] []"
    using up_one_level [OF vp_docs refl docs sync_docs refl,
            where e = "server_always ok_listing" and prompt = None and log = "[]"]
    by (simp add: list_directory_def)
  ultimately show ?thesis by (rule conjI)
qed

end
